theory Spec2Isabelle
  imports Complex_Main
begin

section \<open>Numbers and strings of the source language\<close>

text \<open>
  The program is TypeScript. A value of its type \<open>number\<close> is modelled as a finite real
  or \<open>NaN\<close>: arithmetic is exact (the rounding of doubles is not modelled). The
  infinities are left out of this type: the one place where the modelled code can hold
  one is the sleeper-berth time between its parsing and its clamping, which has the
  type \<open>jsval\<close> below. \<open>NaN\<close> is kept because the code produces it from ordinary
  strings (see \<open>sbTimeHForTotals\<close>), and every comparison with it is false.
\<close>

datatype jsnum = Num real | NaN

fun jadd :: "jsnum \<Rightarrow> jsnum \<Rightarrow> jsnum" where
  "jadd (Num a) (Num b) = Num (a + b)"
| "jadd _ _ = NaN"

fun jsub :: "jsnum \<Rightarrow> jsnum \<Rightarrow> jsnum" where
  "jsub (Num a) (Num b) = Num (a - b)"
| "jsub _ _ = NaN"

fun jmul :: "jsnum \<Rightarrow> jsnum \<Rightarrow> jsnum" where
  "jmul (Num a) (Num b) = Num (a * b)"
| "jmul _ _ = NaN"

text \<open>
  Division: the divisors of the modelled code are the constants 60, 3600, 3600000 and
  1609.34, and a total that a guard has found positive. A zero divisor would give an
  infinity or NaN in the source; the model answers \<open>NaN\<close> there.
\<close>

fun jdiv :: "jsnum \<Rightarrow> jsnum \<Rightarrow> jsnum" where
  "jdiv (Num a) (Num b) = (if b = 0 then NaN else Num (a / b))"
| "jdiv _ _ = NaN"

text \<open>\<open>Math.max\<close> and \<open>Math.min\<close> of two arguments: NaN when either argument is NaN.\<close>

fun Math_max :: "jsnum \<Rightarrow> jsnum \<Rightarrow> jsnum" where
  "Math_max (Num a) (Num b) = Num (max a b)"
| "Math_max _ _ = NaN"

fun Math_min :: "jsnum \<Rightarrow> jsnum \<Rightarrow> jsnum" where
  "Math_min (Num a) (Num b) = Num (min a b)"
| "Math_min _ _ = NaN"

text \<open>The relational operators \<open><\<close>, \<open><=\<close>, \<open>>\<close>, \<open>>=\<close>: false when either side is NaN.\<close>

fun jlt :: "jsnum \<Rightarrow> jsnum \<Rightarrow> bool" where
  "jlt (Num a) (Num b) = (a < b)"
| "jlt _ _ = False"

fun jle :: "jsnum \<Rightarrow> jsnum \<Rightarrow> bool" where
  "jle (Num a) (Num b) = (a \<le> b)"
| "jle _ _ = False"

fun jgt :: "jsnum \<Rightarrow> jsnum \<Rightarrow> bool" where
  "jgt (Num a) (Num b) = (a > b)"
| "jgt _ _ = False"

fun jge :: "jsnum \<Rightarrow> jsnum \<Rightarrow> bool" where
  "jge (Num a) (Num b) = (a \<ge> b)"
| "jge _ _ = False"

text \<open>
  The built-in \<open>Number\<close> applied to a string can also give an infinity (\<open>"Infinity"\<close>,
  or a literal too large for a double). Such values occur only between the parsing of
  the sleeper-berth time and its clamping to \<open>[0, 24]\<close>, and have a type of their own.
\<close>

datatype jsval = Finite real | PosInfinity | NegInfinity | NotNumber

fun xneg :: "jsval \<Rightarrow> jsval" where
  "xneg (Finite a) = Finite (- a)"
| "xneg PosInfinity = NegInfinity"
| "xneg NegInfinity = PosInfinity"
| "xneg NotNumber = NotNumber"

fun xadd :: "jsval \<Rightarrow> jsval \<Rightarrow> jsval" where
  "xadd NotNumber _ = NotNumber"
| "xadd _ NotNumber = NotNumber"
| "xadd (Finite a) (Finite b) = Finite (a + b)"
| "xadd PosInfinity NegInfinity = NotNumber"
| "xadd NegInfinity PosInfinity = NotNumber"
| "xadd PosInfinity _ = PosInfinity"
| "xadd _ PosInfinity = PosInfinity"
| "xadd NegInfinity _ = NegInfinity"
| "xadd _ NegInfinity = NegInfinity"

text \<open>
  Division. There is no negative zero in the model, so a zero divisor counts as
  \<open>+0\<close>; the one division on such a value in the code is by the constant 60.
\<close>

fun xdiv :: "jsval \<Rightarrow> jsval \<Rightarrow> jsval" where
  "xdiv NotNumber _ = NotNumber"
| "xdiv _ NotNumber = NotNumber"
| "xdiv (Finite a) (Finite b) =
     (if b = 0 then (if a = 0 then NotNumber else if 0 < a then PosInfinity else NegInfinity)
      else Finite (a / b))"
| "xdiv (Finite a) _ = Finite 0"
| "xdiv PosInfinity (Finite b) = (if 0 \<le> b then PosInfinity else NegInfinity)"
| "xdiv NegInfinity (Finite b) = (if 0 \<le> b then NegInfinity else PosInfinity)"
| "xdiv _ _ = NotNumber"

text \<open>
  \<open>Math.max(0, Math.min(24, v))\<close>: \<open>Math.min(24, v)\<close> is 24 for \<open>+Infinity\<close> and \<open>v\<close>
  for \<open>-Infinity\<close>, which \<open>Math.max(0, _)\<close> then raises to 0; NaN stays NaN. The result
  is a number of \<open>[0, 24]\<close> or NaN.
\<close>

fun clampHours :: "jsval \<Rightarrow> jsnum" where
  "clampHours (Finite x) = Num (max 0 (min 24 x))"
| "clampHours PosInfinity = Num 24"
| "clampHours NegInfinity = Num 0"
| "clampHours NotNumber = NaN"

text \<open>
  A possibly \<open>undefined\<close> number (an array element read by destructuring) is a
  \<open>jsval option\<close>, \<open>None\<close> for \<open>undefined\<close>. \<open>Number.isNaN\<close> does not convert its
  argument, so it is false on \<open>undefined\<close>; an arithmetic operator converts
  \<open>undefined\<close> to NaN.
\<close>

fun Number_isNaN :: "jsval option \<Rightarrow> bool" where
  "Number_isNaN (Some NotNumber) = True"
| "Number_isNaN _ = False"

fun ToNumber :: "jsval option \<Rightarrow> jsval" where
  "ToNumber (Some v) = v"
| "ToNumber None = NotNumber"

definition index_js :: "'a list \<Rightarrow> nat \<Rightarrow> 'a option" where
  "index_js xs i = (if i < length xs then Some (xs ! i) else None)"

text \<open>
  A string is the list of the bytes of its UTF-8 encoding; the characters the code
  looks for (\<open>:\<close>, \<open>T\<close>, \<open>.\<close>, digits) are ASCII, and an ASCII byte never occurs inside
  the encoding of another character. \<open>split_colon\<close> is \<open>split(':')\<close>.
\<close>

fun split_colon :: "string \<Rightarrow> string list" where
  "split_colon [] = [[]]"
| "split_colon (c # cs) =
     (if c = CHR '':'' then [] # split_colon cs
      else (case split_colon cs of
              [] \<Rightarrow> [[c]]
            | p # ps \<Rightarrow> (c # p) # ps))"

text \<open>
  The two built-ins that the code applies to the sleeper-berth time,
  \<open>String.prototype.trim\<close> and \<open>Number\<close>, are parameters of the model, collected in a
  record: the theorems about every time string hold for every host.
\<close>

record Host =
  hostTrim :: "string \<Rightarrow> string"
  hostNumber :: "string \<Rightarrow> jsval"

text \<open>
  The host of the concrete instances, \<open>jsHost\<close>. White space is what the language
  trims: TAB, LF, VT, FF, CR, space, U+00A0, U+1680, U+2000 to U+200A, U+2028, U+2029,
  U+202F, U+205F, U+3000 and U+FEFF. \<open>isWhiteSpace\<close> recognises the UTF-8 bytes of one
  such character; \<open>wsAtStart\<close> and \<open>wsAtEnd\<close> give the number of bytes of the white
  space character at the start and at the end of a string, or 0.
\<close>

fun isWhiteSpace :: "nat list \<Rightarrow> bool" where
  "isWhiteSpace [a] = (a = 9 \<or> a = 10 \<or> a = 11 \<or> a = 12 \<or> a = 13 \<or> a = 32)"
| "isWhiteSpace [a, b] = (a = 194 \<and> b = 160)"
| "isWhiteSpace [a, b, c] =
     ((a = 225 \<and> b = 154 \<and> c = 128) \<or>
      (a = 226 \<and> b = 128 \<and> (128 \<le> c \<and> c \<le> 138 \<or> c = 168 \<or> c = 169 \<or> c = 175)) \<or>
      (a = 226 \<and> b = 129 \<and> c = 159) \<or>
      (a = 227 \<and> b = 128 \<and> c = 128) \<or>
      (a = 239 \<and> b = 187 \<and> c = 191))"
| "isWhiteSpace _ = False"

definition wsAtStart :: "string \<Rightarrow> nat" where
  "wsAtStart s =
     (if isWhiteSpace (map of_char (take 1 s)) then 1
      else if isWhiteSpace (map of_char (take 2 s)) then 2
      else if isWhiteSpace (map of_char (take 3 s)) then 3
      else 0)"

definition wsAtEnd :: "string \<Rightarrow> nat" where
  "wsAtEnd s =
     (if isWhiteSpace (map of_char (drop (length s - 1) s)) then 1
      else if isWhiteSpace (map of_char (drop (length s - 2) s)) then 2
      else if isWhiteSpace (map of_char (drop (length s - 3) s)) then 3
      else 0)"

function trimStart :: "string \<Rightarrow> string" where
  "trimStart s = (if wsAtStart s = 0 then s else trimStart (drop (wsAtStart s) s))"
  by pat_completeness auto
termination
proof (relation "measure length")
  show "wf (measure (length :: string \<Rightarrow> nat))" by simp
next
  fix s :: string
  assume "wsAtStart s \<noteq> 0"
  moreover have "wsAtStart [] = 0" by (simp add: wsAtStart_def)
  ultimately have "s \<noteq> []" by auto
  with \<open>wsAtStart s \<noteq> 0\<close> show "(drop (wsAtStart s) s, s) \<in> measure length" by simp
qed

function trimEnd :: "string \<Rightarrow> string" where
  "trimEnd s = (if wsAtEnd s = 0 then s else trimEnd (take (length s - wsAtEnd s) s))"
  by pat_completeness auto
termination
proof (relation "measure length")
  show "wf (measure (length :: string \<Rightarrow> nat))" by simp
next
  fix s :: string
  assume "wsAtEnd s \<noteq> 0"
  moreover have "wsAtEnd [] = 0" by (simp add: wsAtEnd_def)
  ultimately have "s \<noteq> []" by auto
  with \<open>wsAtEnd s \<noteq> 0\<close> show "(take (length s - wsAtEnd s) s, s) \<in> measure length" by simp
qed

declare trimStart.simps [simp del] trimEnd.simps [simp del]

definition trim :: "string \<Rightarrow> string" where
  "trim s = trimEnd (trimStart s)"

definition isDigit :: "char \<Rightarrow> bool" where
  "isDigit c = (c \<in> set ''0123456789'')"

definition digitVal :: "char \<Rightarrow> nat" where
  "digitVal c = of_char c - 48"

text \<open>\<open>parseInt(s, 10)\<close> on a string of decimal digits.\<close>

definition parseDigits :: "string \<Rightarrow> nat" where
  "parseDigits ds = foldl (\<lambda>acc c. 10 * acc + digitVal c) 0 ds"

text \<open>
  \<open>Number(s)\<close> on a string, after the grammar of numeric string literals: white space
  is trimmed and the empty string is 0; a literal is \<open>0x\<close>, \<open>0o\<close> or \<open>0b\<close> (either
  case) followed by digits of that radix, or an optional sign followed by \<open>Infinity\<close>
  or by decimal digits with an optional fraction and an optional exponent; anything
  else is NaN. The value is exact, except that \<open>roundMV\<close> takes a value that rounds
  to an infinity (from \<open>2^1024 - 2^970\<close> on) or to zero (up to \<open>2^-1075\<close>) there.
\<close>

definition overflowBound :: real where
  "overflowBound = 2 ^ 1024 - 2 ^ 970"

definition underflowBound :: real where
  "underflowBound = 1 / 2 ^ 1075"

definition roundMV :: "real \<Rightarrow> jsval" where
  "roundMV v =
     (if overflowBound \<le> v then PosInfinity
      else if v \<le> underflowBound then Finite 0
      else Finite v)"

definition radixDigit :: "char \<Rightarrow> nat option" where
  "radixDigit c =
     (if isDigit c then Some (of_char c - 48)
      else if c \<in> set ''abcdef'' then Some (of_char c - 87)
      else if c \<in> set ''ABCDEF'' then Some (of_char c - 55)
      else None)"

fun parseRadix :: "nat \<Rightarrow> nat \<Rightarrow> string \<Rightarrow> nat option" where
  "parseRadix r acc [] = Some acc"
| "parseRadix r acc (c # cs) =
     (case radixDigit c of
        None \<Rightarrow> None
      | Some d \<Rightarrow> if d < r then parseRadix r (r * acc + d) cs else None)"

definition nonDecimal :: "string \<Rightarrow> nat option" where
  "nonDecimal t =
     (case t of
        z # x # d # ds \<Rightarrow>
          if z \<noteq> CHR ''0'' then None
          else if x = CHR ''x'' \<or> x = CHR ''X'' then parseRadix 16 0 (d # ds)
          else if x = CHR ''o'' \<or> x = CHR ''O'' then parseRadix 8 0 (d # ds)
          else if x = CHR ''b'' \<or> x = CHR ''B'' then parseRadix 2 0 (d # ds)
          else None
      | _ \<Rightarrow> None)"

text \<open>The exponent part, or its absence: \<open>None\<close> when the rest is neither.\<close>

definition signedDigits :: "string \<Rightarrow> int option" where
  "signedDigits ds =
     (case ds of
        [] \<Rightarrow> None
      | c # cs \<Rightarrow>
          if c = CHR ''+'' then (if cs \<noteq> [] \<and> list_all isDigit cs then Some (int (parseDigits cs)) else None)
          else if c = CHR ''-'' then (if cs \<noteq> [] \<and> list_all isDigit cs then Some (- int (parseDigits cs)) else None)
          else if list_all isDigit ds then Some (int (parseDigits ds)) else None)"

definition exponentPart :: "string \<Rightarrow> int option" where
  "exponentPart rest =
     (case rest of
        [] \<Rightarrow> Some 0
      | c # cs \<Rightarrow> if c = CHR ''e'' \<or> c = CHR ''E'' then signedDigits cs else None)"

definition scale10 :: "real \<Rightarrow> int \<Rightarrow> real" where
  "scale10 m e = (if 0 \<le> e then m * 10 ^ nat e else m / 10 ^ nat (- e))"

definition unsignedDecimal :: "string \<Rightarrow> jsval" where
  "unsignedDecimal body =
     (if body = ''Infinity'' then PosInfinity
      else
        let ip = takeWhile isDigit body; r1 = dropWhile isDigit body
        in case r1 of
             [] \<Rightarrow> if ip = [] then NotNumber else roundMV (real (parseDigits ip))
           | c # r2 \<Rightarrow>
               if c = CHR ''.'' then
                 (let fp = takeWhile isDigit r2; r3 = dropWhile isDigit r2
                  in if ip = [] \<and> fp = [] then NotNumber
                     else case exponentPart r3 of
                            None \<Rightarrow> NotNumber
                          | Some e \<Rightarrow>
                              roundMV (scale10 (real (parseDigits ip)
                                                + real (parseDigits fp) / 10 ^ length fp) e))
               else if ip = [] then NotNumber
               else case exponentPart r1 of
                      None \<Rightarrow> NotNumber
                    | Some e \<Rightarrow> roundMV (scale10 (real (parseDigits ip)) e))"

definition Number_js :: "string \<Rightarrow> jsval" where
  "Number_js s =
     (let t = trim s in
      if t = [] then Finite 0
      else case nonDecimal t of
             Some n \<Rightarrow> roundMV (real n)
           | None \<Rightarrow>
               if hd t = CHR ''-'' then xneg (unsignedDecimal (tl t))
               else if hd t = CHR ''+'' then unsignedDecimal (tl t)
               else unsignedDecimal t)"

definition jsHost :: Host where
  "jsHost = \<lparr>hostTrim = trim, hostNumber = Number_js\<rparr>"

section \<open>Data model\<close>

datatype DutyStatus = OFF | SB | D | ON

record Segment =
  status :: DutyStatus
  start_iso :: string
  end_iso :: string

record LogbookDay =
  date :: string
  segments :: "Segment list"

datatype YesNo = Yes | No

text \<open>The two fields of the form that the duty computation reads.\<close>

record LogbookFormData =
  ending_shift_location :: "YesNo option"
  sleeper_berth_time :: "string option"

section \<open>Hours since midnight\<close>

text \<open>
  \<open>isoToHoursSinceMidnight\<close> first runs the regular expression
  \<^verbatim>\<open>/T(\d{1,2}):(\d{2})(?::(\d{2}))?(?:\.\d+)?/\<close> on the string. \<open>matchAfterT\<close> is the
  match of what follows the letter T at one position (two hour digits are tried before
  one, as the greedy quantifier does), \<open>execTime\<close> the search for the leftmost position
  that matches; the result is the three captures after \<open>parseInt\<close>, a missing seconds
  group counting as "0".
\<close>

fun secondsGroup :: "string \<Rightarrow> nat" where
  "secondsGroup (c # s1 # s2 # rest) =
     (if c = CHR '':'' \<and> isDigit s1 \<and> isDigit s2 then parseDigits [s1, s2] else parseDigits ''0'')"
| "secondsGroup _ = parseDigits ''0''"

fun minutesGroup :: "nat \<Rightarrow> string \<Rightarrow> (nat \<times> nat \<times> nat) option" where
  "minutesGroup h (c # m1 # m2 # rest) =
     (if c = CHR '':'' \<and> isDigit m1 \<and> isDigit m2
      then Some (h, parseDigits [m1, m2], secondsGroup rest) else None)"
| "minutesGroup h _ = None"

fun matchAfterT :: "string \<Rightarrow> (nat \<times> nat \<times> nat) option" where
  "matchAfterT (d1 # d2 # rest) =
     (if isDigit d1 then
        (case (if isDigit d2 then minutesGroup (parseDigits [d1, d2]) rest else None) of
           Some r \<Rightarrow> Some r
         | None \<Rightarrow> minutesGroup (parseDigits [d1]) (d2 # rest))
      else None)"
| "matchAfterT _ = None"

fun execTime :: "string \<Rightarrow> (nat \<times> nat \<times> nat) option" where
  "execTime [] = None"
| "execTime (c # cs) =
     (if c = CHR ''T'' then
        (case matchAfterT cs of Some r \<Rightarrow> Some r | None \<Rightarrow> execTime cs)
      else execTime cs)"

text \<open>
  When the expression does not match, the source falls back on \<open>new Date(iso)\<close>, whose
  parsing of non-ISO strings is left to the host. The model takes it as a parameter
  \<open>dateUTC\<close>: \<open>None\<close> for an invalid date, else the UTC hours, minutes and seconds.
  The result is a finite number on every path, so it is a real. The general theorems
  hold for every such parser; the concrete instances use timestamps that the
  expression matches, where the parser is not consulted, and take for it the one that
  rejects every string.
\<close>

type_synonym dateParser = "string \<Rightarrow> (nat \<times> nat \<times> nat) option"

definition hoursOf :: "nat \<times> nat \<times> nat \<Rightarrow> real" where
  "hoursOf hms = (case hms of (h, m, s) \<Rightarrow> real h + real m / 60 + real s / 3600)"

definition isoToHoursSinceMidnight :: "dateParser \<Rightarrow> string \<Rightarrow> real" where
  "isoToHoursSinceMidnight dateUTC isoStr =
     (case execTime isoStr of
        None \<Rightarrow> (case dateUTC isoStr of None \<Rightarrow> 0 | Some hms \<Rightarrow> hoursOf hms)
      | Some hms \<Rightarrow> hoursOf hms)"

section \<open>Total hours per duty status\<close>

definition sleeperBerthActiveForTotals :: "Host \<Rightarrow> LogbookFormData \<Rightarrow> bool" where
  "sleeperBerthActiveForTotals h form =
     ((case ending_shift_location form of None \<Rightarrow> No | Some v \<Rightarrow> v) = Yes \<and>
      (case sleeper_berth_time form of None \<Rightarrow> False | Some s \<Rightarrow> hostTrim h s \<noteq> []))"

definition sbTimeHForTotals :: "Host \<Rightarrow> LogbookFormData \<Rightarrow> jsnum" where
  "sbTimeHForTotals h form =
     (if sleeperBerthActiveForTotals h form then
        (let t = hostTrim h (case sleeper_berth_time form of None \<Rightarrow> [] | Some s \<Rightarrow> s);
             parts = map (hostNumber h) (split_colon t);
             hr = index_js parts 0;
             m = index_js parts 1;
             hh = (if Number_isNaN hr then Some (Finite 0) else hr);
             mm = (if Number_isNaN m then Some (Finite 0) else m)
         in clampHours (xadd (ToNumber hh) (xdiv (ToNumber mm) (Finite 60))))
      else Num 24)"

text \<open>The segments with their hours, as the source builds them before sorting.\<close>

record SegmentH = Segment +
  startH :: real
  endH :: real

definition withHours :: "dateParser \<Rightarrow> Segment \<Rightarrow> SegmentH" where
  "withHours dateUTC seg =
     \<lparr>status = status seg, start_iso = start_iso seg, end_iso = end_iso seg,
      startH = isoToHoursSinceMidnight dateUTC (start_iso seg),
      endH = isoToHoursSinceMidnight dateUTC (end_iso seg)\<rparr>"

type_synonym totals = "DutyStatus \<Rightarrow> jsnum"

text \<open>
  One round of the loop over the sorted segments; the state is the table of totals and
  \<open>prevEnd\<close>. A \<open>continue\<close> returns the state unchanged.
\<close>

definition segStep :: "bool \<Rightarrow> jsnum \<Rightarrow> totals \<times> jsnum \<Rightarrow> SegmentH \<Rightarrow> totals \<times> jsnum" where
  "segStep active sbTime st seg =
     (case st of (tot, prevEnd) \<Rightarrow>
      let start = Math_max (Num 0) (Math_min (Num 24) (Num (startH seg)));
          end0 = Math_max (Num 0) (Math_min (Num 24) (Num (endH seg)))
      in if active \<and> jge start sbTime then (tot, prevEnd)
         else
           let end1 = (if active then Math_min end0 sbTime else end0)
           in if jle end1 start then (tot, prevEnd)
              else
                let tot1 = (if jgt start prevEnd
                            then tot(OFF := jadd (tot OFF) (jsub start prevEnd)) else tot);
                    tot2 = tot1(status seg := jadd (tot1 (status seg)) (jsub end1 start))
                in (tot2, Math_max prevEnd end1))"

definition finish :: "bool \<Rightarrow> jsnum \<Rightarrow> totals \<times> jsnum \<Rightarrow> totals" where
  "finish active sbTime st =
     (case st of (tot, prevEnd) \<Rightarrow>
      if active then
        (let tot1 = (if jlt prevEnd sbTime
                     then tot(OFF := jadd (tot OFF) (jsub sbTime prevEnd)) else tot)
         in if jlt sbTime (Num 24)
            then tot1(SB := jadd (tot1 SB) (jsub (Num 24) sbTime)) else tot1)
      else
        (if jlt prevEnd (Num 24)
         then tot(OFF := jadd (tot OFF) (jsub (Num 24) prevEnd)) else tot))"

definition zeroTotals :: totals where
  "zeroTotals = (\<lambda>_. Num 0)"

definition emptyForm :: LogbookFormData where
  "emptyForm = \<lparr>ending_shift_location = None, sleeper_berth_time = None\<rparr>"

text \<open>\<open>const form = formData ?? {}\<close>.\<close>

definition formOf :: "LogbookFormData option \<Rightarrow> LogbookFormData" where
  "formOf formData = (case formData of None \<Rightarrow> emptyForm | Some f \<Rightarrow> f)"

text \<open>
  The copy of the segments with their hours, sorted by \<open>a.startH - b.startH\<close>: the
  stable sort by \<open>startH\<close>.
\<close>

definition sortedSegments :: "dateParser \<Rightarrow> LogbookDay \<Rightarrow> SegmentH list" where
  "sortedSegments dateUTC l = sort_key startH (map (withHours dateUTC) (segments l))"

text \<open>
  \<open>totalsByStatus\<close>: the table starts at zero and is filled only when a log is given
  and it has at least one segment.
\<close>

definition totalsByStatus ::
  "Host \<Rightarrow> dateParser \<Rightarrow> LogbookDay option \<Rightarrow> LogbookFormData option \<Rightarrow> totals" where
  "totalsByStatus h dateUTC logDay formData =
     (let form = formOf formData in
      case logDay of
        None \<Rightarrow> zeroTotals
      | Some l \<Rightarrow>
          if length (segments l) = 0 then zeroTotals
          else
            let active = sleeperBerthActiveForTotals h form;
                sbTime = sbTimeHForTotals h form;
                segs = sortedSegments dateUTC l
            in finish active sbTime (foldl (segStep active sbTime) (zeroTotals, Num 0) segs))"

definition totalHoursSum :: "totals \<Rightarrow> jsnum" where
  "totalHoursSum tot = jadd (jadd (jadd (tot OFF) (tot SB)) (tot D)) (tot ON)"

section \<open>Vertical connectors of the duty overlay\<close>

text \<open>The constants of the sheet's layout that place the duty grid.\<close>

definition W :: real where "W = 850"
definition pad :: real where "pad = 22"
definition contentMargin :: real where "contentMargin = 40"
definition contentX :: real where "contentX = pad + contentMargin"
definition contentW :: real where "contentW = W - pad * 2 - contentMargin * 2"
definition infoY :: real where "infoY = 142"
definition infoH :: real where "infoH = 104"
definition gridX :: real where "gridX = contentX"
definition gridY :: real where "gridY = infoY + infoH + 50"
definition gridW :: real where "gridW = contentW - 35"
definition dutyGridLeftMargin :: real where "dutyGridLeftMargin = 30"
definition dutyGridW :: real where "dutyGridW = gridW - dutyGridLeftMargin"
definition dutyGridX :: real where "dutyGridX = gridX + dutyGridLeftMargin"
definition dutyHourW :: real where "dutyHourW = dutyGridW / 24"
definition headerH :: real where "headerH = 55"
definition rowH :: real where "rowH = dutyHourW"
definition gridBodyY :: real where "gridBodyY = gridY + headerH"

fun statusToRowIndex :: "DutyStatus \<Rightarrow> nat" where
  "statusToRowIndex OFF = 0"
| "statusToRowIndex SB = 1"
| "statusToRowIndex D = 2"
| "statusToRowIndex ON = 3"

record SvgLine =
  line_x1 :: real
  line_y1 :: real
  line_x2 :: real
  line_y2 :: real

text \<open>
  The callback of the third \<open>log.segments.map\<close> of the overlay, at index \<open>idx\<close>:
  \<open>None\<close> is its \<open>return null\<close>, \<open>Some\<close> the line it draws. The tolerance \<open>1e-6\<close>
  is \<open>1 / 1000000\<close>.
\<close>

definition connectorAt :: "dateParser \<Rightarrow> Segment list \<Rightarrow> nat \<Rightarrow> SvgLine option" where
  "connectorAt dateUTC segs idx =
     (if idx = 0 then None
      else
        let seg = segs ! idx;
            prev = segs ! (idx - 1);
            changeTime = isoToHoursSinceMidnight dateUTC (start_iso seg);
            prevEnd = isoToHoursSinceMidnight dateUTC (end_iso prev)
        in if \<bar>changeTime - prevEnd\<bar> > 1 / 1000000 then None
           else
             let clamped = max 0 (min 24 changeTime)
             in if clamped \<le> 0 \<or> clamped \<ge> 24 then None
                else
                  let x = dutyGridX + clamped * dutyHourW;
                      y1 = gridBodyY + real (statusToRowIndex (status prev)) * rowH + rowH / 2;
                      y2 = gridBodyY + real (statusToRowIndex (status seg)) * rowH + rowH / 2
                  in Some \<lparr>line_x1 = x, line_y1 = y1, line_x2 = x, line_y2 = y2\<rparr>)"

definition connectors :: "dateParser \<Rightarrow> LogbookDay \<Rightarrow> SvgLine option list" where
  "connectors dateUTC l = map (connectorAt dateUTC (segments l)) [0..<length (segments l)]"

section \<open>Recap values\<close>

record RecapValues =
  onDutyToday :: jsnum
  seventyA :: jsnum
  seventyB :: jsnum
  seventyC :: jsnum
  sixtyA :: jsnum
  sixtyB :: jsnum
  sixtyC :: jsnum

text \<open>
  The inner function \<open>sum(a, b)\<close> of \<open>getRecapForDay\<close>: \<open>sumLoop\<close> is its loop from
  \<open>j\<close> with the running sum \<open>s\<close>. Indices are integers (the day index comes from
  \<open>Array.map\<close>).
\<close>

function sumLoop :: "jsnum list \<Rightarrow> int \<Rightarrow> int \<Rightarrow> jsnum \<Rightarrow> jsnum" where
  "sumLoop hoursByDay j b s =
     (if j \<le> b
      then sumLoop hoursByDay (j + 1) b
             (if j \<ge> 0 \<and> j < int (length hoursByDay) then jadd s (hoursByDay ! nat j) else s)
      else s)"
  by pat_completeness auto
termination
  by (relation "measure (\<lambda>(hoursByDay, j, b, s). nat (b + 1 - j))") auto

declare sumLoop.simps [simp del]

definition sum_ab :: "jsnum list \<Rightarrow> int \<Rightarrow> int \<Rightarrow> jsnum" where
  "sum_ab hoursByDay a b = sumLoop hoursByDay a b (Num 0)"

text \<open>\<open>hoursByDay[dayIndex] ?? 0\<close>: an index outside the array reads \<open>undefined\<close>.\<close>

definition getRecapForDay :: "jsnum list \<Rightarrow> int \<Rightarrow> RecapValues" where
  "getRecapForDay hoursByDay dayIndex =
     (let onDutyToday0 =
            (if 0 \<le> dayIndex \<and> dayIndex < int (length hoursByDay)
             then hoursByDay ! nat dayIndex else Num 0);
          i = dayIndex;
          seventyA0 = sum_ab hoursByDay (max 0 (i - 6)) i;
          seventyC0 = sum_ab hoursByDay (max 0 (i - 7)) i;
          seventyB0 = Math_max (Num 0) (jsub (Num 70) seventyA0);
          sixtyA0 = sum_ab hoursByDay (max 0 (i - 4)) i;
          sixtyC0 = sum_ab hoursByDay (max 0 (i - 6)) i;
          sixtyB0 = Math_max (Num 0) (jsub (Num 60) sixtyA0)
      in \<lparr>onDutyToday = onDutyToday0, seventyA = seventyA0, seventyB = seventyB0,
          seventyC = seventyC0, sixtyA = sixtyA0, sixtyB = sixtyB0, sixtyC = sixtyC0\<rparr>)"

section \<open>Mileage per day\<close>

record TripPlan =
  distance_m :: jsnum
  logs :: "LogbookDay list"

text \<open>
  \<open>new Date(iso).getTime()\<close> is a parameter \<open>getTime\<close>: the milliseconds since the
  epoch, or NaN for an invalid date. The general theorems hold for every such
  function; the concrete instances take the milliseconds since midnight of the time
  of day written in the string, which gives the durations of segments within one day.
\<close>

type_synonym timeParser = "string \<Rightarrow> jsnum"

definition getDrivingPlusOnDutyHours :: "timeParser \<Rightarrow> Segment list \<Rightarrow> jsnum" where
  "getDrivingPlusOnDutyHours getTime segs =
     foldl (\<lambda>total seg.
              if status seg \<noteq> D \<and> status seg \<noteq> ON then total
              else jadd total (jdiv (jsub (getTime (end_iso seg)) (getTime (start_iso seg)))
                                    (Num (1000 * 60 * 60))))
           (Num 0) segs"

definition getDrivingHours :: "timeParser \<Rightarrow> Segment list \<Rightarrow> jsnum" where
  "getDrivingHours getTime segs =
     foldl (\<lambda>total seg.
              if status seg \<noteq> D then total
              else jadd total (jdiv (jsub (getTime (end_iso seg)) (getTime (start_iso seg)))
                                    (Num (1000 * 60 * 60))))
           (Num 0) segs"

definition hoursByDay :: "timeParser \<Rightarrow> TripPlan \<Rightarrow> jsnum list" where
  "hoursByDay getTime plan = map (\<lambda>l. getDrivingPlusOnDutyHours getTime (segments l)) (logs plan)"

definition totalMiles :: "TripPlan \<Rightarrow> jsnum" where
  "totalMiles plan = jdiv (distance_m plan) (Num (160934 / 100))"

definition totalDriveHours :: "timeParser \<Rightarrow> TripPlan \<Rightarrow> jsnum" where
  "totalDriveHours getTime plan =
     foldl (\<lambda>sum l. jadd sum (getDrivingHours getTime (segments l))) (Num 0) (logs plan)"

definition perDayMiles :: "timeParser \<Rightarrow> TripPlan \<Rightarrow> LogbookDay \<Rightarrow> jsnum" where
  "perDayMiles getTime plan logDay =
     (let driveHoursThisDay = getDrivingHours getTime (segments logDay)
      in if jgt (totalDriveHours getTime plan) (Num 0)
         then jmul (jdiv driveHoursThisDay (totalDriveHours getTime plan)) (totalMiles plan)
         else totalMiles plan)"

text \<open>
  The driving hours of every day, \<open>getDrivingHours(l.segments)\<close> for each log, and the
  miles of every day, both in the order of \<open>plan.logs\<close>.
\<close>

definition drivingHoursPerDay :: "timeParser \<Rightarrow> TripPlan \<Rightarrow> jsnum list" where
  "drivingHoursPerDay getTime plan = map (\<lambda>l. getDrivingHours getTime (segments l)) (logs plan)"

definition milesByDay :: "timeParser \<Rightarrow> TripPlan \<Rightarrow> jsnum list" where
  "milesByDay getTime plan = map (perDayMiles getTime plan) (logs plan)"

section \<open>Auxiliary definitions\<close>

text \<open>
  The loop of \<open>totalsByStatus\<close> once more, on reals: what \<open>segStep\<close> and \<open>finish\<close>
  compute when the sleeper-berth time is a number (lemmas \<open>segStep_liftSt\<close> and
  \<open>finish_liftSt\<close> below). \<open>clamp24\<close> is \<open>Math.max(0, Math.min(24, x))\<close>.
\<close>

definition clamp24 :: "real \<Rightarrow> real" where
  "clamp24 x = max 0 (min 24 x)"

definition segStepR ::
  "bool \<Rightarrow> real \<Rightarrow> (DutyStatus \<Rightarrow> real) \<times> real \<Rightarrow> SegmentH \<Rightarrow> (DutyStatus \<Rightarrow> real) \<times> real" where
  "segStepR active sb st seg =
     (case st of (t, p) \<Rightarrow>
      let s = clamp24 (startH seg); e0 = clamp24 (endH seg)
      in if active \<and> s \<ge> sb then (t, p)
         else
           let e = (if active then min e0 sb else e0)
           in if e \<le> s then (t, p)
              else
                let t1 = (if s > p then t(OFF := t OFF + (s - p)) else t);
                    t2 = t1(status seg := t1 (status seg) + (e - s))
                in (t2, max p e))"

definition finishR :: "bool \<Rightarrow> real \<Rightarrow> (DutyStatus \<Rightarrow> real) \<times> real \<Rightarrow> DutyStatus \<Rightarrow> real" where
  "finishR active sb st =
     (case st of (t, p) \<Rightarrow>
      if active then
        (let t1 = (if p < sb then t(OFF := t OFF + (sb - p)) else t)
         in if sb < 24 then t1(SB := t1 SB + (24 - sb)) else t1)
      else (if p < 24 then t(OFF := t OFF + (24 - p)) else t))"

definition liftTot :: "(DutyStatus \<Rightarrow> real) \<Rightarrow> totals" where
  "liftTot t = (\<lambda>x. Num (t x))"

definition liftSt :: "(DutyStatus \<Rightarrow> real) \<times> real \<Rightarrow> totals \<times> jsnum" where
  "liftSt st = (liftTot (fst st), Num (snd st))"

definition sumR :: "(DutyStatus \<Rightarrow> real) \<Rightarrow> real" where
  "sumR t = t OFF + t SB + t D + t ON"

text \<open>The invariant of the loop: \<open>prevEnd\<close> stays in range and no total is negative.\<close>

definition stOK :: "bool \<Rightarrow> real \<Rightarrow> (DutyStatus \<Rightarrow> real) \<times> real \<Rightarrow> bool" where
  "stOK active sb st =
     (0 \<le> snd st \<and> snd st \<le> 24 \<and> (\<not> active \<or> snd st \<le> sb) \<and> (\<forall>x. 0 \<le> fst st x))"

text \<open>
  What it means that the segments of a day do not overlap: taken in the order of their
  start, no segment ends after a later one starts.
\<close>

definition nonOverlapping :: "dateParser \<Rightarrow> LogbookDay \<Rightarrow> bool" where
  "nonOverlapping dateUTC l =
     sorted_wrt (\<lambda>a b. endH a \<le> startH b) (sortedSegments dateUTC l)"

text \<open>
  The sum of a list of numbers, and the sum of the entries \<open>xs[lo..hi]\<close> (both ends
  included) as a specification of the recap windows.
\<close>

definition jsum :: "jsnum list \<Rightarrow> jsnum" where
  "jsum xs = foldr jadd xs (Num 0)"

definition sumRange :: "jsnum list \<Rightarrow> nat \<Rightarrow> nat \<Rightarrow> jsnum" where
  "sumRange xs lo hi = jsum (map (\<lambda>k. xs ! k) [lo..<Suc hi])"

text \<open>The value of a number that is not NaN.\<close>

fun valOf :: "jsnum \<Rightarrow> real" where
  "valOf (Num r) = r"
| "valOf NaN = 0"

section \<open>The bounds of the doubles as numerals\<close>

text \<open>The two bounds of \<open>roundMV\<close>, written out for evaluation.\<close>

lemma overflowBound_code [code]:
  "overflowBound = 179769313486231580793728971405303415079934132710037826936173778980444968292764750946649017977587207096330286416692887910946555547851940402630657488671505820681908902000708383676273854845817711531764475730270069855571366959622842914819860834936475292719074168444365510704342711559699508093042880177904174497792"
  by (simp add: overflowBound_def)

lemma underflowBound_code [code]:
  "underflowBound = 1 / 404804506614621236704990693437834614099113299528284236713802716054860679135990693783920767402874248990374155728633623822779617474771586953734026799881477019843034848553132722728933815484186432682479535356945490137124014966849385397236206711298319112681620113024717539104666829230461005064372655017292012526615415482186989568"
  by (simp add: underflowBound_def)

section \<open>The totals: the loop on numbers\<close>

lemma liftTot_upd: "(liftTot t)(x := Num v) = liftTot (t(x := v))"
  by (auto simp: liftTot_def fun_eq_iff)

lemma liftTot_app: "liftTot t x = Num (t x)"
  by (simp add: liftTot_def)

lemma clamp_Num: "Math_max (Num 0) (Math_min (Num 24) (Num x)) = Num (clamp24 x)"
  by (simp add: clamp24_def)

lemma segStep_liftSt:
  "segStep active (Num sb) (liftSt st) seg = liftSt (segStepR active sb st seg)"
proof (cases st)
  case (Pair t p)
  let ?s = "clamp24 (startH seg)" and ?c = "clamp24 (endH seg)"
  let ?e = "if active then min ?c sb else ?c"
  show ?thesis
  proof (cases "(active \<and> ?s \<ge> sb) \<or> ?e \<le> ?s")
    case True
    then show ?thesis
      unfolding Pair segStep_def segStepR_def liftSt_def clamp_Num
      by (auto simp: Let_def)
  next
    case False
    then show ?thesis
      unfolding Pair segStep_def segStepR_def liftSt_def clamp_Num
      by (auto simp: Let_def liftTot_upd liftTot_app)
  qed
qed

lemma foldl_segStep_liftSt:
  "foldl (segStep active (Num sb)) (liftSt st) xs = liftSt (foldl (segStepR active sb) st xs)"
  by (induction xs arbitrary: st) (simp_all add: segStep_liftSt)

lemma finish_liftSt:
  "finish active (Num sb) (liftSt st) = liftTot (finishR active sb st)"
proof (cases st)
  case (Pair t p)
  show ?thesis
    unfolding Pair finish_def finishR_def liftSt_def
    by (simp add: Let_def liftTot_upd liftTot_app)
qed

lemma sumR_upd: "sumR (t(x := v)) = sumR t - t x + v"
  by (cases x) (simp_all add: sumR_def)

lemma clamp24_bounds: "0 \<le> clamp24 x" "clamp24 x \<le> 24"
  by (simp_all add: clamp24_def)

lemma clamp24_mono: "x \<le> y \<Longrightarrow> clamp24 x \<le> clamp24 y"
  by (auto simp: clamp24_def)

lemma segStepR_skip:
  "(active \<and> sb \<le> clamp24 (startH seg)) \<or>
   (if active then min (clamp24 (endH seg)) sb else clamp24 (endH seg)) \<le> clamp24 (startH seg)
   \<Longrightarrow> segStepR active sb st seg = st"
  by (cases st) (auto simp: segStepR_def Let_def)

lemma segStepR_keep:
  assumes "\<not> (active \<and> sb \<le> clamp24 (startH seg))"
      and "\<not> (if active then min (clamp24 (endH seg)) sb else clamp24 (endH seg)) \<le> clamp24 (startH seg)"
  shows "segStepR active sb (t, p) seg =
           ((if clamp24 (startH seg) > p then t(OFF := t OFF + (clamp24 (startH seg) - p)) else t)
              (status seg :=
                 (if clamp24 (startH seg) > p then t(OFF := t OFF + (clamp24 (startH seg) - p)) else t) (status seg)
                 + ((if active then min (clamp24 (endH seg)) sb else clamp24 (endH seg)) - clamp24 (startH seg))),
            max p (if active then min (clamp24 (endH seg)) sb else clamp24 (endH seg)))"
  using assms by (auto simp: segStepR_def Let_def)

lemma segStepR_inv:
  assumes "stOK active sb st"
  shows "stOK active sb (segStepR active sb st seg) \<and>
         snd st \<le> snd (segStepR active sb st seg) \<and>
         snd (segStepR active sb st seg) \<le> max (snd st) (clamp24 (endH seg)) \<and>
         sumR (fst st) - snd st \<le> sumR (fst (segStepR active sb st seg)) - snd (segStepR active sb st seg) \<and>
         (snd st \<le> clamp24 (startH seg) \<longrightarrow>
          sumR (fst (segStepR active sb st seg)) - snd (segStepR active sb st seg) = sumR (fst st) - snd st)"
proof -
  obtain t p where st: "st = (t, p)" by (cases st)
  let ?s = "clamp24 (startH seg)" and ?c = "clamp24 (endH seg)"
  let ?e = "if active then min ?c sb else ?c"
  have b: "0 \<le> ?s" "?s \<le> 24" "0 \<le> ?c" "?c \<le> 24" by (simp_all add: clamp24_bounds)
  have ok: "0 \<le> p" "p \<le> 24" "active \<longrightarrow> p \<le> sb" "\<And>x. 0 \<le> t x"
    using assms by (simp_all add: stOK_def st)
  show ?thesis
  proof (cases "(active \<and> sb \<le> ?s) \<or> ?e \<le> ?s")
    case True
    then have eq: "segStepR active sb st seg = st" by (rule segStepR_skip)
    show ?thesis using assms by (simp add: eq)
  next
    case False
    then have k: "\<not> (active \<and> sb \<le> ?s)" "\<not> ?e \<le> ?s" by auto
    note eq = segStepR_keep [OF k, of t p]
    have e1: "?s < ?e" using k by simp
    have e2: "?e \<le> 24" using b by (cases active) (simp_all add: min.coboundedI1)
    have e3: "active \<longrightarrow> ?e \<le> sb" by simp
    have e4: "?e \<le> ?c" by simp
    have g1: "stOK active sb (segStepR active sb st seg)"
      unfolding st eq stOK_def using ok b e1 e2 e3 by (auto simp: add_nonneg_nonneg)
    have g2: "snd st \<le> snd (segStepR active sb st seg)"
      unfolding st eq by simp
    have g3: "snd (segStepR active sb st seg) \<le> max (snd st) (clamp24 (endH seg))"
      unfolding st eq using e4 by auto
    have g4: "sumR (fst st) - snd st \<le> sumR (fst (segStepR active sb st seg)) - snd (segStepR active sb st seg)"
      unfolding st eq using e1 by (cases "status seg = OFF") (auto simp: sumR_upd)
    have g5: "sumR (fst (segStepR active sb st seg)) - snd (segStepR active sb st seg) = sumR (fst st) - snd st"
      if "snd st \<le> clamp24 (startH seg)"
      using that e1 unfolding st eq by (cases "status seg = OFF") (auto simp: sumR_upd)
    show ?thesis using g1 g2 g3 g4 g5 by blast
  qed
qed

lemma loopR_inv:
  "stOK active sb st \<Longrightarrow>
   stOK active sb (foldl (segStepR active sb) st xs) \<and>
   sumR (fst st) - snd st
     \<le> sumR (fst (foldl (segStepR active sb) st xs)) - snd (foldl (segStepR active sb) st xs)"
proof (induction xs arbitrary: st)
  case Nil
  then show ?case by simp
next
  case (Cons x xs)
  from segStepR_inv [OF Cons.prems, of x]
  have ok: "stOK active sb (segStepR active sb st x)"
    and le: "sumR (fst st) - snd st
               \<le> sumR (fst (segStepR active sb st x)) - snd (segStepR active sb st x)"
    by blast+
  from Cons.IH [OF ok] le show ?case by fastforce
qed

lemma loopR_exact:
  "stOK active sb st \<Longrightarrow> sorted_wrt (\<lambda>a b. endH a \<le> startH b) xs \<Longrightarrow>
   \<forall>b \<in> set xs. snd st \<le> clamp24 (startH b) \<Longrightarrow>
   sumR (fst (foldl (segStepR active sb) st xs)) - snd (foldl (segStepR active sb) st xs)
     = sumR (fst st) - snd st"
proof (induction xs arbitrary: st)
  case Nil
  then show ?case by simp
next
  case (Cons x xs)
  let ?st = "segStepR active sb st x"
  from segStepR_inv [OF Cons.prems(1), of x] Cons.prems(3)
  have ok: "stOK active sb ?st"
    and up: "snd ?st \<le> max (snd st) (clamp24 (endH x))"
    and eq: "sumR (fst ?st) - snd ?st = sumR (fst st) - snd st"
    by simp_all
  have nxt: "\<forall>b \<in> set xs. snd ?st \<le> clamp24 (startH b)"
  proof
    fix b assume b: "b \<in> set xs"
    with Cons.prems(2) have "endH x \<le> startH b" by simp
    then have "clamp24 (endH x) \<le> clamp24 (startH b)" by (rule clamp24_mono)
    moreover from Cons.prems(3) b have "snd st \<le> clamp24 (startH b)" by simp
    ultimately show "snd ?st \<le> clamp24 (startH b)" using up by simp
  qed
  from Cons.prems(2) have srt: "sorted_wrt (\<lambda>a b. endH a \<le> startH b) xs" by simp
  from Cons.IH [OF ok srt nxt] eq show ?case by simp
qed

lemma finishR_sum:
  assumes "stOK active sb st" "sb \<le> 24"
  shows "sumR (finishR active sb st) = sumR (fst st) - snd st + 24"
proof -
  obtain t p where st: "st = (t, p)" by (cases st)
  from assms have p: "p \<le> 24" "active \<longrightarrow> p \<le> sb" by (simp_all add: stOK_def st)
  show ?thesis
    unfolding st finishR_def using p assms(2)
    by (auto simp: Let_def sumR_upd)
qed

lemma finishR_nonneg:
  assumes "stOK active sb st"
  shows "0 \<le> finishR active sb st x"
proof -
  obtain t p where st: "st = (t, p)" by (cases st)
  from assms have p: "\<And>y. 0 \<le> t y" by (simp add: stOK_def st)
  show ?thesis
    unfolding st finishR_def using p
    by (auto simp: Let_def add_nonneg_nonneg)
qed

lemma totalHoursSum_liftTot: "totalHoursSum (liftTot t) = Num (sumR t)"
  by (simp add: totalHoursSum_def liftTot_def sumR_def)

lemma clamp_result:
  assumes "clampHours v = Num sb"
  shows "0 \<le> sb \<and> sb \<le> 24"
  using assms by (cases v) auto

lemma sbTime_range:
  assumes "sbTimeHForTotals h form = Num sb"
  shows "0 \<le> sb \<and> sb \<le> 24"
proof (cases "sleeperBerthActiveForTotals h form")
  case True
  with assms show ?thesis
    unfolding sbTimeHForTotals_def Let_def by (simp add: clamp_result)
next
  case False
  with assms show ?thesis by (simp add: sbTimeHForTotals_def)
qed

lemma zero_liftSt: "(zeroTotals, Num 0) = liftSt (\<lambda>_. 0, 0)"
  by (simp add: zeroTotals_def liftSt_def liftTot_def)

lemma totalsByStatus_number:
  assumes "segments l \<noteq> []" and "sbTimeHForTotals h (formOf formData) = Num sb"
  shows "totalsByStatus h dateUTC (Some l) formData =
           liftTot (finishR (sleeperBerthActiveForTotals h (formOf formData)) sb
                      (foldl (segStepR (sleeperBerthActiveForTotals h (formOf formData)) sb)
                             (\<lambda>_. 0, 0) (sortedSegments dateUTC l)))"
  using assms
  by (simp add: totalsByStatus_def Let_def zero_liftSt foldl_segStep_liftSt finish_liftSt)

lemma stOK_init: "0 \<le> sb \<Longrightarrow> stOK active sb (\<lambda>_. 0, 0)"
  by (simp add: stOK_def)

text \<open>
  The sleeper-berth time is a number (not NaN) when the override is inactive, and when
  the trimmed time has an hour part and a minute part neither of which \<open>Number\<close> takes
  to an infinity.
\<close>

lemma sbTime_not_NaN:
  assumes "\<not> sleeperBerthActiveForTotals h form \<or>
           (case sleeper_berth_time form of
              None \<Rightarrow> False
            | Some s \<Rightarrow>
                (case split_colon (hostTrim h s) of
                   a # b # rest \<Rightarrow>
                     hostNumber h a \<noteq> PosInfinity \<and> hostNumber h a \<noteq> NegInfinity \<and>
                     hostNumber h b \<noteq> PosInfinity \<and> hostNumber h b \<noteq> NegInfinity
                 | _ \<Rightarrow> False))"
  shows "sbTimeHForTotals h form \<noteq> NaN"
proof (cases "sleeperBerthActiveForTotals h form")
  case False
  then show ?thesis by (simp add: sbTimeHForTotals_def)
next
  case True
  with assms obtain s a b rest where s: "sleeper_berth_time form = Some s"
    and p: "split_colon (hostTrim h s) = a # b # rest"
    and fin: "hostNumber h a \<noteq> PosInfinity" "hostNumber h a \<noteq> NegInfinity"
             "hostNumber h b \<noteq> PosInfinity" "hostNumber h b \<noteq> NegInfinity"
    by (auto split: option.splits list.splits)
  show ?thesis
    using True s p fin
    by (cases "hostNumber h a"; cases "hostNumber h b")
       (simp_all add: sbTimeHForTotals_def Let_def index_js_def)
qed

text \<open>
  Some times as \<open>jsHost\<close> reads them: an exponent, a hexadecimal literal and an
  infinity are numbers to \<open>Number\<close>, a no-break space (U+00A0) is trimmed, and an
  infinite hour with the opposite infinite minute is NaN.
\<close>

lemma override_times_as_read:
  "sbTimeHForTotals jsHost
     \<lparr>ending_shift_location = Some Yes, sleeper_berth_time = Some ''1e1:3e1''\<rparr> = Num (21 / 2) \<and>
   sbTimeHForTotals jsHost
     \<lparr>ending_shift_location = Some Yes, sleeper_berth_time = Some ''1e1:30''\<rparr> = Num (21 / 2) \<and>
   sbTimeHForTotals jsHost
     \<lparr>ending_shift_location = Some Yes, sleeper_berth_time = Some ''0x10:00''\<rparr> = Num 16 \<and>
   sbTimeHForTotals jsHost
     \<lparr>ending_shift_location = Some Yes, sleeper_berth_time = Some ''Infinity:00''\<rparr> = Num 24 \<and>
   sbTimeHForTotals jsHost
     \<lparr>ending_shift_location = Some Yes, sleeper_berth_time = Some ''Infinity:-Infinity''\<rparr> = NaN \<and>
   sbTimeHForTotals jsHost
     \<lparr>ending_shift_location = Some Yes,
      sleeper_berth_time = Some (map char_of [194, 160 :: nat] @ ''20:00'')\<rparr> = Num 20"
  by code_simp

subsection \<open>Claim C1: the totals of a day sum to 24\<close>

text \<open>
  A day whose segments are listed in the order of their start, each ending no later
  than the following ones start, is a day without overlap.
\<close>

lemma nonOverlapping_chronological:
  assumes "sorted (map startH (map (withHours dateUTC) (segments l)))"
      and "sorted_wrt (\<lambda>a b. endH a \<le> startH b) (map (withHours dateUTC) (segments l))"
  shows "nonOverlapping dateUTC l"
  using assms by (simp add: nonOverlapping_def sortedSegments_def sort_key_id_if_sorted)

text \<open>
  In the exact arithmetic of the model the sum of such a day is 24. The source adds
  doubles, whose rounding the model leaves out; the claim states its sum with a
  tolerance, and so does the theorem below.
\<close>

lemma totals_sum_exact:
  assumes "segments l \<noteq> []"
      and "sbTimeHForTotals h (formOf formData) \<noteq> NaN"
      and "nonOverlapping dateUTC l"
  shows "totalHoursSum (totalsByStatus h dateUTC (Some l) formData) = Num 24"
proof -
  let ?a = "sleeperBerthActiveForTotals h (formOf formData)"
  from assms(2) obtain sb where sb: "sbTimeHForTotals h (formOf formData) = Num sb"
    by (cases "sbTimeHForTotals h (formOf formData)") auto
  from sbTime_range [OF sb] have r: "0 \<le> sb" "sb \<le> 24" by simp_all
  let ?st = "foldl (segStepR ?a sb) (\<lambda>_. 0, 0) (sortedSegments dateUTC l)"
  have ini: "stOK ?a sb (\<lambda>_. 0, 0)" using r(1) by (rule stOK_init)
  from loopR_inv [OF ini] have ok: "stOK ?a sb ?st" by blast
  have "sumR (fst ?st) - snd ?st = sumR (fst (\<lambda>_. 0 :: real, 0 :: real)) - snd (\<lambda>_ :: DutyStatus. 0 :: real, 0 :: real)"
    using assms(3) unfolding nonOverlapping_def
    by (intro loopR_exact [OF ini]) (simp_all add: clamp24_bounds)
  then have "sumR (fst ?st) - snd ?st = 0" by (simp add: sumR_def)
  with finishR_sum [OF ok r(2)] have "sumR (finishR ?a sb ?st) = 24" by simp
  then show ?thesis
    by (simp add: totalsByStatus_number [OF assms(1) sb] totalHoursSum_liftTot)
qed

text \<open>
  Claim C1, as amended. For every host, every day with at least one segment whose
  segments do not overlap (sorted or not, in range or not), and every form whose
  sleeper-berth time, as the code parses it, is a number (not NaN), the four totals
  OFF + SB + D + ON sum to 24 within a tolerance of \<open>1e-6\<close>.
\<close>

theorem totals_sum_24:
  assumes "segments l \<noteq> []"
      and "sbTimeHForTotals h (formOf formData) \<noteq> NaN"
      and "nonOverlapping dateUTC l"
  shows "\<exists>s. totalHoursSum (totalsByStatus h dateUTC (Some l) formData) = Num s \<and>
             \<bar>s - 24\<bar> \<le> 1 / 1000000"
  using totals_sum_exact [OF assms] by simp

theorem totals_sum_24_witness:
  "segments \<lparr>date = ''2024-03-04'', segments =
     [\<lparr>status = D, start_iso = ''2024-03-04T12:30:00Z'', end_iso = ''2024-03-04T15:00:00Z''\<rparr>,
      \<lparr>status = ON, start_iso = ''2024-03-04T07:00:00Z'', end_iso = ''2024-03-04T08:00:00Z''\<rparr>,
      \<lparr>status = D, start_iso = ''2024-03-04T08:00:00Z'', end_iso = ''2024-03-04T12:00:00Z''\<rparr>,
      \<lparr>status = OFF, start_iso = ''2024-03-04T12:00:00Z'', end_iso = ''2024-03-04T12:30:00Z''\<rparr>,
      \<lparr>status = D, start_iso = ''2024-03-04T21:00:00Z'', end_iso = ''2024-03-04T25:30:00Z''\<rparr>]\<rparr> \<noteq> [] \<and>
   sbTimeHForTotals jsHost (formOf (Some \<lparr>ending_shift_location = Some Yes, sleeper_berth_time = Some ''14:30''\<rparr>)) \<noteq> NaN \<and>
   nonOverlapping (\<lambda>_. None) \<lparr>date = ''2024-03-04'', segments =
     [\<lparr>status = D, start_iso = ''2024-03-04T12:30:00Z'', end_iso = ''2024-03-04T15:00:00Z''\<rparr>,
      \<lparr>status = ON, start_iso = ''2024-03-04T07:00:00Z'', end_iso = ''2024-03-04T08:00:00Z''\<rparr>,
      \<lparr>status = D, start_iso = ''2024-03-04T08:00:00Z'', end_iso = ''2024-03-04T12:00:00Z''\<rparr>,
      \<lparr>status = OFF, start_iso = ''2024-03-04T12:00:00Z'', end_iso = ''2024-03-04T12:30:00Z''\<rparr>,
      \<lparr>status = D, start_iso = ''2024-03-04T21:00:00Z'', end_iso = ''2024-03-04T25:30:00Z''\<rparr>]\<rparr> \<and>
   (\<exists>s. totalHoursSum (totalsByStatus jsHost (\<lambda>_. None) (Some \<lparr>date = ''2024-03-04'', segments =
     [\<lparr>status = D, start_iso = ''2024-03-04T12:30:00Z'', end_iso = ''2024-03-04T15:00:00Z''\<rparr>,
      \<lparr>status = ON, start_iso = ''2024-03-04T07:00:00Z'', end_iso = ''2024-03-04T08:00:00Z''\<rparr>,
      \<lparr>status = D, start_iso = ''2024-03-04T08:00:00Z'', end_iso = ''2024-03-04T12:00:00Z''\<rparr>,
      \<lparr>status = OFF, start_iso = ''2024-03-04T12:00:00Z'', end_iso = ''2024-03-04T12:30:00Z''\<rparr>,
      \<lparr>status = D, start_iso = ''2024-03-04T21:00:00Z'', end_iso = ''2024-03-04T25:30:00Z''\<rparr>]\<rparr>)
     (Some \<lparr>ending_shift_location = Some Yes, sleeper_berth_time = Some ''14:30''\<rparr>)) = Num s \<and>
        \<bar>s - 24\<bar> \<le> 1 / 1000000)"
  (is "?A \<and> ?B \<and> ?C \<and> ?D")
proof -
  have a: ?A by simp
  have b: ?B by code_simp
  have c: ?C by code_simp
  from a b c totals_sum_24 [OF a b c] show ?thesis by blast
qed

text \<open>
  Claim C1 as stated fails: a day with no segment totals 0 hours, and two overlapping
  segments D 07:00-15:00 and ON 08:00-16:00 total 31 hours.
\<close>

theorem totals_sum_24_counterexample:
  "totalHoursSum (totalsByStatus jsHost (\<lambda>_. None) (Some \<lparr>date = ''2024-03-04'', segments = []\<rparr>) None) = Num 0 \<and>
   totalHoursSum (totalsByStatus jsHost (\<lambda>_. None) (Some \<lparr>date = ''2024-03-04'', segments =
     [\<lparr>status = D, start_iso = ''2024-03-04T07:00:00Z'', end_iso = ''2024-03-04T15:00:00Z''\<rparr>,
      \<lparr>status = ON, start_iso = ''2024-03-04T08:00:00Z'', end_iso = ''2024-03-04T16:00:00Z''\<rparr>]\<rparr>) None) = Num 31"
  by code_simp

text \<open>
  Overlap never takes hours away: for a day with at least one segment and a
  sleeper-berth time that is a number, the sum of the four totals is at least 24.
\<close>

lemma totals_sum_at_least_24:
  assumes "segments l \<noteq> []"
      and "sbTimeHForTotals h (formOf formData) \<noteq> NaN"
  shows "\<exists>s. totalHoursSum (totalsByStatus h dateUTC (Some l) formData) = Num s \<and> 24 \<le> s"
proof -
  let ?a = "sleeperBerthActiveForTotals h (formOf formData)"
  from assms(2) obtain sb where sb: "sbTimeHForTotals h (formOf formData) = Num sb"
    by (cases "sbTimeHForTotals h (formOf formData)") auto
  from sbTime_range [OF sb] have r: "0 \<le> sb" "sb \<le> 24" by simp_all
  let ?st = "foldl (segStepR ?a sb) (\<lambda>_. 0, 0) (sortedSegments dateUTC l)"
  have ini: "stOK ?a sb (\<lambda>_. 0, 0)" using r(1) by (rule stOK_init)
  from loopR_inv [OF ini, of "sortedSegments dateUTC l"]
  have ok: "stOK ?a sb ?st" and "0 \<le> sumR (fst ?st) - snd ?st"
    by (simp_all add: sumR_def)
  with finishR_sum [OF ok r(2)] have "24 \<le> sumR (finishR ?a sb ?st)" by simp
  then show ?thesis
    by (simp add: totalsByStatus_number [OF assms(1) sb] totalHoursSum_liftTot)
qed

subsection \<open>Claim C3: the day with no segment\<close>

text \<open>Claim C3 as stated fails: the OFF total of a day with no segment is 0, not 24.\<close>

theorem empty_day_counterexample:
  "totalsByStatus jsHost (\<lambda>_. None) (Some \<lparr>date = ''2024-03-04'', segments = []\<rparr>) None OFF = Num 0"
  by code_simp

text \<open>
  Claim C3, as amended. For a day whose segment list is empty the computation is
  skipped: each of the four totals is 0, and so is their sum, whatever the form; the
  function returns a value on this input as on every other.
\<close>

theorem empty_day_totals_zero:
  "totalsByStatus h dateUTC (Some \<lparr>date = dt, segments = []\<rparr>) formData x = Num 0 \<and>
   totalHoursSum (totalsByStatus h dateUTC (Some \<lparr>date = dt, segments = []\<rparr>) formData) = Num 0"
  by (simp add: totalsByStatus_def zeroTotals_def totalHoursSum_def)

subsection \<open>Claim C4: one driving segment and an override at 20:00\<close>

lemma sbTime_2000:
  "sbTimeHForTotals jsHost \<lparr>ending_shift_location = Some Yes, sleeper_berth_time = Some ''20:00''\<rparr> = Num 20"
  by code_simp

lemma active_2000:
  "sleeperBerthActiveForTotals jsHost \<lparr>ending_shift_location = Some Yes, sleeper_berth_time = Some ''20:00''\<rparr>"
  by code_simp

lemma one_segment_override_2000:
  assumes "isoToHoursSinceMidnight dateUTC s = 7"
      and "isoToHoursSinceMidnight dateUTC e = 15"
  shows "totalsByStatus jsHost dateUTC
           (Some \<lparr>date = dt, segments = [\<lparr>status = D, start_iso = s, end_iso = e\<rparr>]\<rparr>)
           (Some \<lparr>ending_shift_location = Some Yes, sleeper_berth_time = Some ''20:00''\<rparr>)
         = (\<lambda>_. Num 0)(OFF := Num 12, D := Num 8, SB := Num 4)"
  using assms
  by (simp add: totalsByStatus_def formOf_def sortedSegments_def withHours_def sbTime_2000
        active_2000 segStep_def finish_def zeroTotals_def Let_def fun_upd_twist)

text \<open>
  Claim C4. For a day with exactly one segment, D from 07:00 to 15:00, and an active
  sleeper-berth override at 20:00, the totals are OFF = 12, D = 8, SB = 4 and ON = 0:
  those of OFF[0,7) D[7,15) OFF[15,20) SB[20,24). The timestamps are any two strings
  that read as 7 and 15 hours since midnight.
\<close>

theorem sleeper_berth_truncation:
  assumes "isoToHoursSinceMidnight dateUTC s = 7"
      and "isoToHoursSinceMidnight dateUTC e = 15"
  shows "totalsByStatus jsHost dateUTC
           (Some \<lparr>date = dt, segments = [\<lparr>status = D, start_iso = s, end_iso = e\<rparr>]\<rparr>)
           (Some \<lparr>ending_shift_location = Some Yes, sleeper_berth_time = Some ''20:00''\<rparr>) OFF
           = Num 12 \<and>
         totalsByStatus jsHost dateUTC
           (Some \<lparr>date = dt, segments = [\<lparr>status = D, start_iso = s, end_iso = e\<rparr>]\<rparr>)
           (Some \<lparr>ending_shift_location = Some Yes, sleeper_berth_time = Some ''20:00''\<rparr>) D
           = Num 8 \<and>
         totalsByStatus jsHost dateUTC
           (Some \<lparr>date = dt, segments = [\<lparr>status = D, start_iso = s, end_iso = e\<rparr>]\<rparr>)
           (Some \<lparr>ending_shift_location = Some Yes, sleeper_berth_time = Some ''20:00''\<rparr>) SB
           = Num 4 \<and>
         totalsByStatus jsHost dateUTC
           (Some \<lparr>date = dt, segments = [\<lparr>status = D, start_iso = s, end_iso = e\<rparr>]\<rparr>)
           (Some \<lparr>ending_shift_location = Some Yes, sleeper_berth_time = Some ''20:00''\<rparr>) ON
           = Num 0"
  by (simp add: one_segment_override_2000 [OF assms])

theorem sleeper_berth_truncation_witness:
  "isoToHoursSinceMidnight (\<lambda>_. None) ''2024-03-04T07:00:00Z'' = 7 \<and>
   isoToHoursSinceMidnight (\<lambda>_. None) ''2024-03-04T15:00:00Z'' = 15 \<and>
   totalsByStatus jsHost (\<lambda>_. None)
     (Some \<lparr>date = ''2024-03-04'', segments =
        [\<lparr>status = D, start_iso = ''2024-03-04T07:00:00Z'', end_iso = ''2024-03-04T15:00:00Z''\<rparr>]\<rparr>)
     (Some \<lparr>ending_shift_location = Some Yes, sleeper_berth_time = Some ''20:00''\<rparr>) OFF
     = Num 12 \<and>
   totalsByStatus jsHost (\<lambda>_. None)
     (Some \<lparr>date = ''2024-03-04'', segments =
        [\<lparr>status = D, start_iso = ''2024-03-04T07:00:00Z'', end_iso = ''2024-03-04T15:00:00Z''\<rparr>]\<rparr>)
     (Some \<lparr>ending_shift_location = Some Yes, sleeper_berth_time = Some ''20:00''\<rparr>) D
     = Num 8 \<and>
   totalsByStatus jsHost (\<lambda>_. None)
     (Some \<lparr>date = ''2024-03-04'', segments =
        [\<lparr>status = D, start_iso = ''2024-03-04T07:00:00Z'', end_iso = ''2024-03-04T15:00:00Z''\<rparr>]\<rparr>)
     (Some \<lparr>ending_shift_location = Some Yes, sleeper_berth_time = Some ''20:00''\<rparr>) SB
     = Num 4 \<and>
   totalsByStatus jsHost (\<lambda>_. None)
     (Some \<lparr>date = ''2024-03-04'', segments =
        [\<lparr>status = D, start_iso = ''2024-03-04T07:00:00Z'', end_iso = ''2024-03-04T15:00:00Z''\<rparr>]\<rparr>)
     (Some \<lparr>ending_shift_location = Some Yes, sleeper_berth_time = Some ''20:00''\<rparr>) ON
     = Num 0"
proof -
  have a: "isoToHoursSinceMidnight (\<lambda>_. None) ''2024-03-04T07:00:00Z'' = 7" by code_simp
  have b: "isoToHoursSinceMidnight (\<lambda>_. None) ''2024-03-04T15:00:00Z'' = 15" by code_simp
  from a b sleeper_berth_truncation [OF a b, of "''2024-03-04''"] show ?thesis by blast
qed

subsection \<open>Claim C7: an absent or unparsable override time\<close>

lemma loopR_all_skipped:
  "foldl (segStepR True 0) st xs = st"
  by (induction xs) (simp_all add: segStepR_skip clamp24_bounds)

lemma totals_at_midnight:
  assumes "segments l \<noteq> []"
      and "sleeperBerthActiveForTotals h (formOf formData)"
      and "sbTimeHForTotals h (formOf formData) = Num 0"
  shows "totalsByStatus h dateUTC (Some l) formData = (\<lambda>_. Num 0)(SB := Num 24)"
  by (simp add: totalsByStatus_number [OF assms(1) assms(3)] assms(2) loopR_all_skipped
        finishR_def liftTot_def fun_eq_iff)

lemma not_active_ignores_form:
  assumes "\<not> sleeperBerthActiveForTotals h f" "\<not> sleeperBerthActiveForTotals h g"
  shows "totalsByStatus h dateUTC logDay (Some f) = totalsByStatus h dateUTC logDay (Some g)"
proof -
  have "sbTimeHForTotals h f = sbTimeHForTotals h g"
    using assms by (simp add: sbTimeHForTotals_def)
  then show ?thesis
    using assms by (cases logDay) (simp_all add: totalsByStatus_def formOf_def Let_def)
qed

lemma split_colon_two_nonempty: "split_colon t = a # b # rest \<Longrightarrow> t \<noteq> []"
  by auto

text \<open>
  Claim C7 as stated fails: with the override chosen and an empty time, the day
  D 07:00-15:00 has no sleeper-berth hours, where the time 00:00 gives 24 of them.
\<close>

theorem blank_time_counterexample:
  "totalsByStatus jsHost (\<lambda>_. None) (Some \<lparr>date = ''2024-03-04'', segments =
     [\<lparr>status = D, start_iso = ''2024-03-04T07:00:00Z'', end_iso = ''2024-03-04T15:00:00Z''\<rparr>]\<rparr>)
     (Some \<lparr>ending_shift_location = Some Yes, sleeper_berth_time = Some []\<rparr>) SB = Num 0 \<and>
   totalsByStatus jsHost (\<lambda>_. None) (Some \<lparr>date = ''2024-03-04'', segments =
     [\<lparr>status = D, start_iso = ''2024-03-04T07:00:00Z'', end_iso = ''2024-03-04T15:00:00Z''\<rparr>]\<rparr>)
     (Some \<lparr>ending_shift_location = Some Yes, sleeper_berth_time = Some ''00:00''\<rparr>) SB = Num 24"
  by code_simp

lemma midnight_0000:
  "sleeperBerthActiveForTotals jsHost
     \<lparr>ending_shift_location = Some Yes, sleeper_berth_time = Some ''00:00''\<rparr> \<and>
   sbTimeHForTotals jsHost
     \<lparr>ending_shift_location = Some Yes, sleeper_berth_time = Some ''00:00''\<rparr> = Num 0"
  by code_simp

text \<open>
  Claim C7, as amended, for every host (every \<open>trim\<close> and \<open>Number\<close>). When the time
  of the override is absent or blank (empty once trimmed), the override is ignored:
  the totals are those of the same form with the override switched off. When the
  trimmed time has an hour part and a minute part and \<open>Number\<close> of each is NaN, the
  override time is 00:00, and a day with at least one segment is 24 hours of SB, as
  with the time \<open>"00:00"\<close>.
\<close>

theorem blank_or_unparsable_time:
  "((case sleeper_berth_time form of None \<Rightarrow> True | Some s \<Rightarrow> hostTrim h s = [])
      \<longrightarrow> totalsByStatus h dateUTC logDay (Some form)
            = totalsByStatus h dateUTC logDay (Some (form\<lparr>ending_shift_location := Some No\<rparr>)))
   \<and>
   (ending_shift_location form = Some Yes \<and> sleeper_berth_time form = Some s \<and>
    split_colon (hostTrim h s) = hS # mS # rest \<and>
    hostNumber h hS = NotNumber \<and> hostNumber h mS = NotNumber \<and>
    segments l \<noteq> []
      \<longrightarrow> sbTimeHForTotals h form = Num 0 \<and>
          totalsByStatus h dateUTC (Some l) (Some form) = (\<lambda>_. Num 0)(SB := Num 24) \<and>
          totalsByStatus h dateUTC (Some l) (Some form)
            = totalsByStatus jsHost dateUTC (Some l)
                (Some \<lparr>ending_shift_location = Some Yes, sleeper_berth_time = Some ''00:00''\<rparr>))"
proof (intro conjI impI)
  assume "case sleeper_berth_time form of None \<Rightarrow> True | Some s \<Rightarrow> hostTrim h s = []"
  then have "\<not> sleeperBerthActiveForTotals h form"
    and "\<not> sleeperBerthActiveForTotals h (form\<lparr>ending_shift_location := Some No\<rparr>)"
    by (auto simp: sleeperBerthActiveForTotals_def split: option.splits)
  then show "totalsByStatus h dateUTC logDay (Some form)
            = totalsByStatus h dateUTC logDay (Some (form\<lparr>ending_shift_location := Some No\<rparr>))"
    by (rule not_active_ignores_form)
next
  assume hyp: "ending_shift_location form = Some Yes \<and> sleeper_berth_time form = Some s \<and>
    split_colon (hostTrim h s) = hS # mS # rest \<and>
    hostNumber h hS = NotNumber \<and> hostNumber h mS = NotNumber \<and>
    segments l \<noteq> []"
  then have ne: "hostTrim h s \<noteq> []" using split_colon_two_nonempty by blast
  from hyp ne have act: "sleeperBerthActiveForTotals h form"
    by (simp add: sleeperBerthActiveForTotals_def)
  from hyp act show sb: "sbTimeHForTotals h form = Num 0"
    by (simp add: sbTimeHForTotals_def Let_def index_js_def)
  let ?g = "\<lparr>ending_shift_location = Some Yes, sleeper_berth_time = Some ''00:00''\<rparr>"
  from hyp have l: "segments l \<noteq> []" by simp
  show t1: "totalsByStatus h dateUTC (Some l) (Some form) = (\<lambda>_. Num 0)(SB := Num 24)"
    using totals_at_midnight [OF l, of h "Some form"] act sb by (simp add: formOf_def)
  have "totalsByStatus jsHost dateUTC (Some l) (Some ?g) = (\<lambda>_. Num 0)(SB := Num 24)"
    using totals_at_midnight [OF l, of jsHost "Some ?g"] midnight_0000 by (simp add: formOf_def)
  with t1 show "totalsByStatus h dateUTC (Some l) (Some form)
                  = totalsByStatus jsHost dateUTC (Some l) (Some ?g)"
    by simp
qed

theorem blank_or_unparsable_time_witness:
  "(case sleeper_berth_time \<lparr>ending_shift_location = Some Yes, sleeper_berth_time = Some ''  ''\<rparr> of
      None \<Rightarrow> True | Some s \<Rightarrow> hostTrim jsHost s = []) \<and>
   totalsByStatus jsHost (\<lambda>_. None) (Some \<lparr>date = ''2024-03-04'', segments =
     [\<lparr>status = D, start_iso = ''2024-03-04T07:00:00Z'', end_iso = ''2024-03-04T15:00:00Z''\<rparr>]\<rparr>)
     (Some \<lparr>ending_shift_location = Some Yes, sleeper_berth_time = Some ''  ''\<rparr>)
   = totalsByStatus jsHost (\<lambda>_. None) (Some \<lparr>date = ''2024-03-04'', segments =
     [\<lparr>status = D, start_iso = ''2024-03-04T07:00:00Z'', end_iso = ''2024-03-04T15:00:00Z''\<rparr>]\<rparr>)
     (Some \<lparr>ending_shift_location = Some No, sleeper_berth_time = Some ''  ''\<rparr>) \<and>
   split_colon (hostTrim jsHost ''ab:cd'') = [''ab'', ''cd''] \<and>
   hostNumber jsHost ''ab'' = NotNumber \<and> hostNumber jsHost ''cd'' = NotNumber \<and>
   sbTimeHForTotals jsHost \<lparr>ending_shift_location = Some Yes, sleeper_berth_time = Some ''ab:cd''\<rparr> = Num 0 \<and>
   totalsByStatus jsHost (\<lambda>_. None) (Some \<lparr>date = ''2024-03-04'', segments =
     [\<lparr>status = D, start_iso = ''2024-03-04T07:00:00Z'', end_iso = ''2024-03-04T15:00:00Z''\<rparr>]\<rparr>)
     (Some \<lparr>ending_shift_location = Some Yes, sleeper_berth_time = Some ''ab:cd''\<rparr>)
   = (\<lambda>_. Num 0)(SB := Num 24)"
  (is "?A \<and> ?B \<and> ?C \<and> ?D \<and> ?E \<and> ?F \<and> ?G")
proof -
  let ?l = "\<lparr>date = ''2024-03-04'', segments =
     [\<lparr>status = D, start_iso = ''2024-03-04T07:00:00Z'', end_iso = ''2024-03-04T15:00:00Z''\<rparr>]\<rparr>"
  have a: ?A by code_simp
  have c: ?C by code_simp
  have d: ?D by code_simp
  have e: ?E by code_simp
  have l: "segments ?l \<noteq> []" by simp
  from blank_or_unparsable_time
         [where form = "\<lparr>ending_shift_location = Some Yes, sleeper_berth_time = Some ''  ''\<rparr>"
            and h = jsHost and dateUTC = "\<lambda>_. None" and logDay = "Some ?l"] a
  have b: ?B by simp
  from blank_or_unparsable_time
         [where form = "\<lparr>ending_shift_location = Some Yes, sleeper_berth_time = Some ''ab:cd''\<rparr>"
            and h = jsHost and s = "''ab:cd''" and hS = "''ab''" and mS = "''cd''" and rest = "[]"
            and l = ?l and dateUTC = "\<lambda>_. None"] c d e l
  have fg: "?F \<and> ?G" by simp
  from a b c d e fg show ?thesis by blast
qed

subsection \<open>Claim C10: no total is negative\<close>

text \<open>
  When the sleeper-berth time is a number, no total is negative.
\<close>

lemma totals_nonneg_number:
  assumes "segments l \<noteq> []"
      and "sbTimeHForTotals h (formOf formData) \<noteq> NaN"
  shows "\<exists>r. totalsByStatus h dateUTC (Some l) formData x = Num r \<and> 0 \<le> r"
proof -
  let ?a = "sleeperBerthActiveForTotals h (formOf formData)"
  from assms(2) obtain sb where sb: "sbTimeHForTotals h (formOf formData) = Num sb"
    by (cases "sbTimeHForTotals h (formOf formData)") auto
  from sbTime_range [OF sb] have r: "0 \<le> sb" "sb \<le> 24" by simp_all
  let ?st = "foldl (segStepR ?a sb) (\<lambda>_. 0, 0) (sortedSegments dateUTC l)"
  have ini: "stOK ?a sb (\<lambda>_. 0, 0)" using r(1) by (rule stOK_init)
  from loopR_inv [OF ini] have ok: "stOK ?a sb ?st" by blast
  show ?thesis
    by (simp add: totalsByStatus_number [OF assms(1) sb] liftTot_app finishR_nonneg [OF ok])
qed

text \<open>
  Claim C10 at the input where the code departs from it: the override time "20" has
  no minute part, \<open>Number.isNaN(undefined)\<close> is false, the time becomes NaN, and the
  driving total of the day D 07:00-15:00 is NaN, which is not \<open>\<ge> 0\<close>.
\<close>

theorem missing_minutes_gives_NaN:
  "sbTimeHForTotals jsHost \<lparr>ending_shift_location = Some Yes, sleeper_berth_time = Some ''20''\<rparr> = NaN \<and>
   totalsByStatus jsHost (\<lambda>_. None) (Some \<lparr>date = ''2024-03-04'', segments =
     [\<lparr>status = D, start_iso = ''2024-03-04T07:00:00Z'', end_iso = ''2024-03-04T15:00:00Z''\<rparr>]\<rparr>)
     (Some \<lparr>ending_shift_location = Some Yes, sleeper_berth_time = Some ''20''\<rparr>) D = NaN \<and>
   \<not> jge (totalsByStatus jsHost (\<lambda>_. None) (Some \<lparr>date = ''2024-03-04'', segments =
     [\<lparr>status = D, start_iso = ''2024-03-04T07:00:00Z'', end_iso = ''2024-03-04T15:00:00Z''\<rparr>]\<rparr>)
     (Some \<lparr>ending_shift_location = Some Yes, sleeper_berth_time = Some ''20''\<rparr>) D) (Num 0)"
  by code_simp

section \<open>Sums of numbers\<close>

lemma jadd_commute: "jadd a b = jadd b a"
  by (cases a; cases b) simp_all

lemma jadd_assoc: "jadd (jadd a b) c = jadd a (jadd b c)"
  by (cases a; cases b; cases c) simp_all

lemma jadd_zero_right: "jadd a (Num 0) = a"
  by (cases a) simp_all

lemma foldl_jadd_jsum: "foldl jadd s xs = jadd s (jsum xs)"
proof (induction xs arbitrary: s)
  case Nil
  then show ?case by (simp add: jsum_def jadd_zero_right)
next
  case (Cons x xs)
  have "foldl jadd s (x # xs) = jadd (jadd s x) (jsum xs)" by (simp add: Cons.IH)
  also have "\<dots> = jadd s (jadd x (jsum xs))" by (rule jadd_assoc)
  finally show ?case by (simp add: jsum_def)
qed

lemma jsum_Num: "jsum (map Num rs) = Num (sum_list rs)"
  by (induction rs) (simp_all add: jsum_def)

section \<open>Connectors\<close>

lemma connectors_nth:
  "idx < length (segments l) \<Longrightarrow> connectors dateUTC l ! idx = connectorAt dateUTC (segments l) idx"
  by (simp add: connectors_def)

text \<open>
  Claim C8. For every pair of consecutive segments of a day's list (positions
  \<open>idx - 1\<close> and \<open>idx\<close>), a connector is drawn only when the end of the first and the
  start of the second differ by at most \<open>1e-6\<close>, and it is then a vertical line between
  the rows of their two statuses; when the times differ by more than \<open>1e-6\<close>, no
  connector is drawn.
\<close>

theorem connector_only_when_times_meet:
  assumes "0 < idx" and "idx < length (segments l)"
  shows "(connectors dateUTC l ! idx = Some drawn \<longrightarrow>
            \<bar>isoToHoursSinceMidnight dateUTC (start_iso (segments l ! idx))
              - isoToHoursSinceMidnight dateUTC (end_iso (segments l ! (idx - 1)))\<bar> \<le> 1 / 1000000 \<and>
            line_x1 drawn = line_x2 drawn \<and>
            line_y1 drawn = gridBodyY + real (statusToRowIndex (status (segments l ! (idx - 1)))) * rowH + rowH / 2 \<and>
            line_y2 drawn = gridBodyY + real (statusToRowIndex (status (segments l ! idx))) * rowH + rowH / 2)
         \<and>
         (\<bar>isoToHoursSinceMidnight dateUTC (start_iso (segments l ! idx))
            - isoToHoursSinceMidnight dateUTC (end_iso (segments l ! (idx - 1)))\<bar> > 1 / 1000000
          \<longrightarrow> connectors dateUTC l ! idx = None)"
  using assms
  by (auto simp: connectors_nth connectorAt_def Let_def split: if_splits)

theorem connector_only_when_times_meet_witness:
  "(0 :: nat) < 1 \<and>
   1 < length (segments \<lparr>date = ''2024-03-04'', segments =
     [\<lparr>status = ON, start_iso = ''2024-03-04T07:00:00Z'', end_iso = ''2024-03-04T08:00:00Z''\<rparr>,
      \<lparr>status = D, start_iso = ''2024-03-04T08:00:00Z'', end_iso = ''2024-03-04T12:00:00Z''\<rparr>,
      \<lparr>status = D, start_iso = ''2024-03-04T12:30:00Z'', end_iso = ''2024-03-04T15:00:00Z''\<rparr>]\<rparr>) \<and>
   connectors (\<lambda>_. None) \<lparr>date = ''2024-03-04'', segments =
     [\<lparr>status = ON, start_iso = ''2024-03-04T07:00:00Z'', end_iso = ''2024-03-04T08:00:00Z''\<rparr>,
      \<lparr>status = D, start_iso = ''2024-03-04T08:00:00Z'', end_iso = ''2024-03-04T12:00:00Z''\<rparr>,
      \<lparr>status = D, start_iso = ''2024-03-04T12:30:00Z'', end_iso = ''2024-03-04T15:00:00Z''\<rparr>]\<rparr> ! 1
     = Some \<lparr>line_x1 = 937 / 3, line_y1 = 21475 / 48, line_x2 = 937 / 3, line_y2 = 20153 / 48\<rparr> \<and>
   \<bar>isoToHoursSinceMidnight (\<lambda>_. None) ''2024-03-04T08:00:00Z''
     - isoToHoursSinceMidnight (\<lambda>_. None) ''2024-03-04T08:00:00Z''\<bar> \<le> 1 / 1000000 \<and>
   (2 :: nat) < 3 \<and>
   \<bar>isoToHoursSinceMidnight (\<lambda>_. None) ''2024-03-04T12:30:00Z''
     - isoToHoursSinceMidnight (\<lambda>_. None) ''2024-03-04T12:00:00Z''\<bar> > 1 / 1000000 \<and>
   connectors (\<lambda>_. None) \<lparr>date = ''2024-03-04'', segments =
     [\<lparr>status = ON, start_iso = ''2024-03-04T07:00:00Z'', end_iso = ''2024-03-04T08:00:00Z''\<rparr>,
      \<lparr>status = D, start_iso = ''2024-03-04T08:00:00Z'', end_iso = ''2024-03-04T12:00:00Z''\<rparr>,
      \<lparr>status = D, start_iso = ''2024-03-04T12:30:00Z'', end_iso = ''2024-03-04T15:00:00Z''\<rparr>]\<rparr> ! 2
     = None"
  (is "?A \<and> ?B \<and> ?C \<and> ?D \<and> ?E \<and> ?F \<and> ?G")
proof -
  let ?l = "\<lparr>date = ''2024-03-04'', segments =
     [\<lparr>status = ON, start_iso = ''2024-03-04T07:00:00Z'', end_iso = ''2024-03-04T08:00:00Z''\<rparr>,
      \<lparr>status = D, start_iso = ''2024-03-04T08:00:00Z'', end_iso = ''2024-03-04T12:00:00Z''\<rparr>,
      \<lparr>status = D, start_iso = ''2024-03-04T12:30:00Z'', end_iso = ''2024-03-04T15:00:00Z''\<rparr>]\<rparr>"
  have a: ?A by simp
  have b: ?B by simp
  have c: ?C by code_simp
  have e: ?E by simp
  have f: ?F by code_simp
  have e2: "2 < length (segments ?l)" by simp
  from connector_only_when_times_meet [OF a b, where dateUTC = "\<lambda>_. None"
         and drawn = "\<lparr>line_x1 = 937 / 3, line_y1 = 21475 / 48, line_x2 = 937 / 3, line_y2 = 20153 / 48\<rparr>"] c
  have d: ?D by simp
  have two: "(0 :: nat) < 2" by simp
  from connector_only_when_times_meet [OF two e2, where dateUTC = "\<lambda>_. None"] f
  have g: ?G by simp
  from a b c d e f g show ?thesis by blast
qed

section \<open>Recap\<close>

lemma sumLoop_in_range:
  "0 \<le> a \<Longrightarrow> b < int (length hs) \<Longrightarrow>
   sumLoop hs a b s = foldl jadd s (map (\<lambda>k. hs ! k) [nat a..<nat (b + 1)])"
proof (induction hs a b s rule: sumLoop.induct)
  case (1 hs j b s)
  show ?case
  proof (cases "j \<le> b")
    case True
    with "1.prems" have rng: "0 \<le> j \<and> j < int (length hs)" by simp
    from True "1.prems" have nxt: "nat (j + 1) = Suc (nat j)" "nat j < nat (b + 1)" by simp_all
    have "sumLoop hs j b s = sumLoop hs (j + 1) b (jadd s (hs ! nat j))"
      using True rng by (subst sumLoop.simps) simp
    also have "\<dots> = foldl jadd (jadd s (hs ! nat j)) (map (\<lambda>k. hs ! k) [nat (j + 1)..<nat (b + 1)])"
      using "1.IH" [OF True] "1.prems" rng by simp
    also have "\<dots> = foldl jadd s (map (\<lambda>k. hs ! k) [nat j..<nat (b + 1)])"
      using nxt by (simp add: upt_conv_Cons)
    finally show ?thesis .
  next
    case False
    then have "nat (b + 1) \<le> nat j" using "1.prems" by simp
    with False show ?thesis by (subst sumLoop.simps) simp
  qed
qed

lemma sum_ab_sumRange:
  assumes "i < length hs" "0 \<le> k"
  shows "sum_ab hs (max 0 (int i - k)) (int i) = sumRange hs (nat (max 0 (int i - k))) i"
proof -
  have "nat (int i + 1) = Suc i" by simp
  moreover have "foldl jadd (Num 0) xs = jsum xs" for xs
    by (simp add: foldl_jadd_jsum jadd_commute [of "Num 0"] jadd_zero_right)
  ultimately show ?thesis
    using assms sumLoop_in_range [of "max 0 (int i - k)" "int i" hs "Num 0"]
    by (simp add: sum_ab_def sumRange_def)
qed

lemma sumRange_take:
  assumes "i < length hs"
  shows "sumRange (take (Suc i) hs) lo i = sumRange hs lo i"
proof -
  have "map (\<lambda>k. take (Suc i) hs ! k) [lo..<Suc i] = map (\<lambda>k. hs ! k) [lo..<Suc i]"
  proof (rule map_cong [OF refl])
    fix k assume "k \<in> set [lo..<Suc i]"
    then have "k < Suc i" by (simp del: upt_Suc)
    then show "take (Suc i) hs ! k = hs ! k" by simp
  qed
  then show ?thesis unfolding sumRange_def by (rule arg_cong)
qed

lemma getRecapForDay_in_range:
  assumes "i < length hs"
  shows "getRecapForDay hs (int i) =
           \<lparr>onDutyToday = hs ! i,
            seventyA = sumRange hs (nat (max 0 (int i - 6))) i,
            seventyB = Math_max (Num 0) (jsub (Num 70) (sumRange hs (nat (max 0 (int i - 6))) i)),
            seventyC = sumRange hs (nat (max 0 (int i - 7))) i,
            sixtyA = sumRange hs (nat (max 0 (int i - 4))) i,
            sixtyB = Math_max (Num 0) (jsub (Num 60) (sumRange hs (nat (max 0 (int i - 4))) i)),
            sixtyC = sumRange hs (nat (max 0 (int i - 6))) i\<rparr>"
proof -
  note s = sum_ab_sumRange [OF assms]
  show ?thesis
    unfolding getRecapForDay_def Let_def
    using assms by (simp only: s [of 6] s [of 7] s [of 4]) simp
qed

text \<open>
  Claim C2. For every sequence \<open>hs\<close> of on-duty hours and every day index \<open>i\<close> in range,
  \<open>getRecapForDay\<close> returns \<open>onDutyToday = hs[i]\<close>, \<open>seventyA\<close> and \<open>sixtyC\<close> the sum of
  \<open>hs[max(0,i-6)..i]\<close>, \<open>seventyC\<close> the sum of \<open>hs[max(0,i-7)..i]\<close>, \<open>sixtyA\<close> the sum of
  \<open>hs[max(0,i-4)..i]\<close>, \<open>seventyB = max(0, 70 - seventyA)\<close> and
  \<open>sixtyB = max(0, 60 - sixtyA)\<close>. The windows stop at index 0, and no day after \<open>i\<close>
  is used: the result is the same on the sequence cut after day \<open>i\<close>.
\<close>

theorem recap_values:
  assumes "i < length hs"
  shows "getRecapForDay hs (int i) =
           \<lparr>onDutyToday = hs ! i,
            seventyA = sumRange hs (nat (max 0 (int i - 6))) i,
            seventyB = Math_max (Num 0) (jsub (Num 70) (sumRange hs (nat (max 0 (int i - 6))) i)),
            seventyC = sumRange hs (nat (max 0 (int i - 7))) i,
            sixtyA = sumRange hs (nat (max 0 (int i - 4))) i,
            sixtyB = Math_max (Num 0) (jsub (Num 60) (sumRange hs (nat (max 0 (int i - 4))) i)),
            sixtyC = sumRange hs (nat (max 0 (int i - 6))) i\<rparr>
         \<and> getRecapForDay (take (Suc i) hs) (int i) = getRecapForDay hs (int i)"
proof -
  have len: "i < length (take (Suc i) hs)" using assms by simp
  have "getRecapForDay (take (Suc i) hs) (int i) = getRecapForDay hs (int i)"
    unfolding getRecapForDay_in_range [OF assms] getRecapForDay_in_range [OF len]
    using assms by (simp add: sumRange_take)
  with getRecapForDay_in_range [OF assms] show ?thesis by simp
qed

theorem recap_values_witness:
  "(7 :: nat) < length (replicate 8 (Num 8)) \<and>
   getRecapForDay (replicate 8 (Num 8)) (int 7) =
     \<lparr>onDutyToday = Num 8, seventyA = Num 56, seventyB = Num 14, seventyC = Num 64,
      sixtyA = Num 40, sixtyB = Num 20, sixtyC = Num 56\<rparr> \<and>
   getRecapForDay (take (Suc 7) (replicate 8 (Num 8))) (int 7) = getRecapForDay (replicate 8 (Num 8)) (int 7)"
proof -
  have h: "(7 :: nat) < length (replicate 8 (Num 8))" by simp
  have v: "\<lparr>onDutyToday = replicate 8 (Num 8) ! 7,
            seventyA = sumRange (replicate 8 (Num 8)) (nat (max 0 (int 7 - 6))) 7,
            seventyB = Math_max (Num 0) (jsub (Num 70) (sumRange (replicate 8 (Num 8)) (nat (max 0 (int 7 - 6))) 7)),
            seventyC = sumRange (replicate 8 (Num 8)) (nat (max 0 (int 7 - 7))) 7,
            sixtyA = sumRange (replicate 8 (Num 8)) (nat (max 0 (int 7 - 4))) 7,
            sixtyB = Math_max (Num 0) (jsub (Num 60) (sumRange (replicate 8 (Num 8)) (nat (max 0 (int 7 - 4))) 7)),
            sixtyC = sumRange (replicate 8 (Num 8)) (nat (max 0 (int 7 - 6))) 7\<rparr>
          = \<lparr>onDutyToday = Num 8, seventyA = Num 56, seventyB = Num 14, seventyC = Num 64,
      sixtyA = Num 40, sixtyB = Num 20, sixtyC = Num 56\<rparr>"
    by code_simp
  from h recap_values [OF h] v show ?thesis by simp
qed

lemma nonneg_Num: "jge x (Num 0) \<Longrightarrow> \<exists>r. x = Num r \<and> 0 \<le> r"
  by (cases x) simp_all

lemma sumLoop_nonneg:
  "list_all (\<lambda>x. jge x (Num 0)) hs \<Longrightarrow> jge s (Num 0) \<Longrightarrow> jge (sumLoop hs a b s) (Num 0)"
proof (induction hs a b s rule: sumLoop.induct)
  case (1 hs j b s)
  show ?case
  proof (cases "j \<le> b")
    case True
    let ?s = "if j \<ge> 0 \<and> j < int (length hs) then jadd s (hs ! nat j) else s"
    have "jge ?s (Num 0)"
    proof (cases "j \<ge> 0 \<and> j < int (length hs)")
      case True
      then have "nat j < length hs" by (simp add: nat_less_iff)
      then have "hs ! nat j \<in> set hs" by (rule nth_mem)
      with "1.prems"(1) have "jge (hs ! nat j) (Num 0)" by (simp add: list_all_iff)
      with "1.prems"(2) True show ?thesis by (auto dest!: nonneg_Num)
    next
      case False
      with "1.prems"(2) show ?thesis by auto
    qed
    from "1.IH" [OF True "1.prems"(1) this] True show ?thesis
      by (subst sumLoop.simps) simp
  next
    case False
    with "1.prems"(2) show ?thesis by (subst sumLoop.simps) simp
  qed
qed

lemma sum_ab_nonneg:
  "list_all (\<lambda>x. jge x (Num 0)) hs \<Longrightarrow> jge (sum_ab hs a b) (Num 0)"
  by (simp add: sum_ab_def sumLoop_nonneg)

lemma B_nonneg: "jge a (Num 0) \<Longrightarrow> jge (Math_max (Num 0) (jsub (Num c) a)) (Num 0)"
  by (cases a) simp_all

text \<open>
  Claim C9, as amended. For every sequence of on-duty hours whose entries are numbers
  \<open>\<ge> 0\<close> and every day index, in range or not, each of the seven fields of the
  result is \<open>\<ge> 0\<close>.
\<close>

theorem recap_nonneg:
  assumes "list_all (\<lambda>x. jge x (Num 0)) hs"
  shows "jge (onDutyToday (getRecapForDay hs dayIndex)) (Num 0) \<and>
         jge (seventyA (getRecapForDay hs dayIndex)) (Num 0) \<and>
         jge (seventyB (getRecapForDay hs dayIndex)) (Num 0) \<and>
         jge (seventyC (getRecapForDay hs dayIndex)) (Num 0) \<and>
         jge (sixtyA (getRecapForDay hs dayIndex)) (Num 0) \<and>
         jge (sixtyB (getRecapForDay hs dayIndex)) (Num 0) \<and>
         jge (sixtyC (getRecapForDay hs dayIndex)) (Num 0)"
proof -
  have today: "jge (hs ! nat dayIndex) (Num 0)" if "0 \<le> dayIndex" "dayIndex < int (length hs)"
  proof -
    from that have "nat dayIndex < length hs" by (simp add: nat_less_iff)
    then have "hs ! nat dayIndex \<in> set hs" by (rule nth_mem)
    with assms show ?thesis by (simp add: list_all_iff)
  qed
  show ?thesis
    unfolding getRecapForDay_def Let_def
    using today by (simp add: sum_ab_nonneg [OF assms] B_nonneg)
qed

text \<open>
  Claim C9 as stated fails: on the one-day sequence \<open>[-1]\<close> the fields \<open>onDutyToday\<close>
  and \<open>seventyA\<close> are \<open>-1\<close>.
\<close>

theorem recap_nonneg_counterexample:
  "onDutyToday (getRecapForDay [Num (- 1)] 0) = Num (- 1) \<and>
   \<not> jge (onDutyToday (getRecapForDay [Num (- 1)] 0)) (Num 0) \<and>
   \<not> jge (seventyA (getRecapForDay [Num (- 1)] 0)) (Num 0)"
  by code_simp

theorem recap_nonneg_witness:
  "list_all (\<lambda>x. jge x (Num 0)) [Num 8, Num 11, Num 0, Num (19 / 2)] \<and>
   jge (onDutyToday (getRecapForDay [Num 8, Num 11, Num 0, Num (19 / 2)] 3)) (Num 0) \<and>
   jge (seventyA (getRecapForDay [Num 8, Num 11, Num 0, Num (19 / 2)] 3)) (Num 0) \<and>
   jge (seventyB (getRecapForDay [Num 8, Num 11, Num 0, Num (19 / 2)] 3)) (Num 0) \<and>
   jge (seventyC (getRecapForDay [Num 8, Num 11, Num 0, Num (19 / 2)] 3)) (Num 0) \<and>
   jge (sixtyA (getRecapForDay [Num 8, Num 11, Num 0, Num (19 / 2)] 3)) (Num 0) \<and>
   jge (sixtyB (getRecapForDay [Num 8, Num 11, Num 0, Num (19 / 2)] 3)) (Num 0) \<and>
   jge (sixtyC (getRecapForDay [Num 8, Num 11, Num 0, Num (19 / 2)] 3)) (Num 0)"
proof -
  have h: "list_all (\<lambda>x. jge x (Num 0)) [Num 8, Num 11, Num 0, Num (19 / 2)]" by simp
  from h recap_nonneg [OF h, of 3] show ?thesis by blast
qed

section \<open>Mileage\<close>

lemma foldl_jadd_NaN: "foldl (\<lambda>acc l. jadd acc (f l)) NaN ls = NaN"
  by (induction ls) simp_all

lemma foldl_jadd_Num:
  "foldl (\<lambda>acc l. jadd acc (f l)) (Num a) ls = Num t \<Longrightarrow>
   (\<forall>l \<in> set ls. f l \<noteq> NaN) \<and> t = a + (\<Sum>l\<leftarrow>ls. valOf (f l))"
proof (induction ls arbitrary: a)
  case Nil
  then show ?case by simp
next
  case (Cons x xs)
  show ?case
  proof (cases "f x")
    case NaN
    with Cons.prems show ?thesis by (simp add: foldl_jadd_NaN)
  next
    case (Num r)
    with Cons.prems have "foldl (\<lambda>acc l. jadd acc (f l)) (Num (a + r)) xs = Num t" by simp
    from Cons.IH [OF this] Num show ?thesis by simp
  qed
qed

lemma totalDriveHours_Num:
  assumes "totalDriveHours getTime plan = Num t"
  shows "(\<forall>l \<in> set (logs plan). getDrivingHours getTime (segments l) \<noteq> NaN) \<and>
         t = (\<Sum>l\<leftarrow>logs plan. valOf (getDrivingHours getTime (segments l)))"
  using foldl_jadd_Num [of "\<lambda>l. getDrivingHours getTime (segments l)" 0 "logs plan" t] assms
  by (simp add: totalDriveHours_def)

lemma jsum_scaled:
  assumes "\<forall>l \<in> set ls. f l \<noteq> NaN"
  shows "jsum (map (\<lambda>l. jmul (jdiv (f l) (Num t)) (Num m)) ls)
           = (if t = 0 \<and> ls \<noteq> [] then NaN else Num ((\<Sum>l\<leftarrow>ls. valOf (f l)) / t * m))"
  using assms
proof (induction ls)
  case Nil
  then show ?case by (simp add: jsum_def)
next
  case (Cons x xs)
  then obtain r where r: "f x = Num r" by (cases "f x") auto
  from Cons have "jsum (map (\<lambda>l. jmul (jdiv (f l) (Num t)) (Num m)) xs)
           = (if t = 0 \<and> xs \<noteq> [] then NaN else Num ((\<Sum>l\<leftarrow>xs. valOf (f l)) / t * m))"
    by simp
  then show ?case
    using r by (simp add: jsum_def add_divide_distrib distrib_right)
qed

lemma totalDriveHours_jsum:
  "totalDriveHours getTime plan = jsum (drivingHoursPerDay getTime plan)"
proof -
  have "foldl (\<lambda>acc l. jadd acc (f l)) s ls = foldl jadd s (map f ls)" for f :: "LogbookDay \<Rightarrow> jsnum" and s ls
    by (induction ls arbitrary: s) simp_all
  then show ?thesis
    by (simp add: totalDriveHours_def drivingHoursPerDay_def foldl_jadd_jsum
          jadd_commute [of "Num 0"] jadd_zero_right)
qed

text \<open>
  Claim C5. Whenever the sum of the per-day driving hours is positive, day \<open>i\<close> gets
  \<open>totalMiles * drivingHoursPerDay[i] / sum(drivingHoursPerDay)\<close>, and (the distance
  being a number) the miles of all days sum to \<open>totalMiles\<close> exactly, hence within any
  tolerance.
\<close>

theorem miles_in_proportion:
  assumes "jgt (jsum (drivingHoursPerDay getTime plan)) (Num 0)"
      and "i < length (logs plan)"
  shows "milesByDay getTime plan ! i
           = jdiv (jmul (totalMiles plan) (drivingHoursPerDay getTime plan ! i))
                  (jsum (drivingHoursPerDay getTime plan))
         \<and> (distance_m plan \<noteq> NaN \<longrightarrow> jsum (milesByDay getTime plan) = totalMiles plan)"
proof -
  let ?T = "totalDriveHours getTime plan"
  from assms(1) obtain t where t: "?T = Num t" "0 < t"
    by (cases ?T) (auto simp: totalDriveHours_jsum)
  have one: "perDayMiles getTime plan logDay
           = jdiv (jmul (totalMiles plan) (getDrivingHours getTime (segments logDay))) ?T" for logDay
    using t
    by (cases "totalMiles plan"; cases "getDrivingHours getTime (segments logDay)")
       (simp_all add: perDayMiles_def Let_def)
  have two: "jsum (milesByDay getTime plan) = totalMiles plan" if "distance_m plan \<noteq> NaN"
  proof -
    from that obtain dm where "distance_m plan = Num dm"
      by (cases "distance_m plan") auto
    then have "totalMiles plan = Num (dm / (160934 / 100))"
      by (simp add: totalMiles_def)
    then obtain m where m: "totalMiles plan = Num m" by blast
    from totalDriveHours_Num [OF t(1)]
    have all: "\<forall>l \<in> set (logs plan). getDrivingHours getTime (segments l) \<noteq> NaN"
      and s: "t = (\<Sum>l\<leftarrow>logs plan. valOf (getDrivingHours getTime (segments l)))"
      by simp_all
    have "milesByDay getTime plan
            = map (\<lambda>l. jmul (jdiv (getDrivingHours getTime (segments l)) (Num t)) (Num m)) (logs plan)"
      using t m by (simp add: milesByDay_def perDayMiles_def Let_def)
    then have "jsum (milesByDay getTime plan)
            = Num ((\<Sum>l\<leftarrow>logs plan. valOf (getDrivingHours getTime (segments l))) / t * m)"
      using jsum_scaled [OF all, of t m] t(2) by simp
    with s [symmetric] t(2) m show ?thesis by simp
  qed
  have T: "jsum (drivingHoursPerDay getTime plan) = ?T"
    by (simp add: totalDriveHours_jsum)
  have d: "drivingHoursPerDay getTime plan ! i = getDrivingHours getTime (segments (logs plan ! i))"
    using assms(2) by (simp add: drivingHoursPerDay_def)
  have m: "milesByDay getTime plan ! i = perDayMiles getTime plan (logs plan ! i)"
    using assms(2) by (simp add: milesByDay_def)
  show ?thesis
    unfolding T d m using one [of "logs plan ! i"] two by blast
qed

theorem miles_in_proportion_witness:
  "jgt (jsum (drivingHoursPerDay (\<lambda>s. Num (3600000 * isoToHoursSinceMidnight (\<lambda>_. None) s))
     \<lparr>distance_m = Num 804670, logs =
        [\<lparr>date = ''2024-03-04'', segments =
           [\<lparr>status = D, start_iso = ''2024-03-04T08:00:00Z'', end_iso = ''2024-03-04T12:00:00Z''\<rparr>,
            \<lparr>status = ON, start_iso = ''2024-03-04T12:00:00Z'', end_iso = ''2024-03-04T13:00:00Z''\<rparr>]\<rparr>,
         \<lparr>date = ''2024-03-05'', segments =
           [\<lparr>status = D, start_iso = ''2024-03-05T07:00:00Z'', end_iso = ''2024-03-05T13:00:00Z''\<rparr>]\<rparr>]\<rparr>))
     (Num 0) \<and>
   (1 :: nat) < length (logs
     \<lparr>distance_m = Num 804670, logs =
        [\<lparr>date = ''2024-03-04'', segments =
           [\<lparr>status = D, start_iso = ''2024-03-04T08:00:00Z'', end_iso = ''2024-03-04T12:00:00Z''\<rparr>,
            \<lparr>status = ON, start_iso = ''2024-03-04T12:00:00Z'', end_iso = ''2024-03-04T13:00:00Z''\<rparr>]\<rparr>,
         \<lparr>date = ''2024-03-05'', segments =
           [\<lparr>status = D, start_iso = ''2024-03-05T07:00:00Z'', end_iso = ''2024-03-05T13:00:00Z''\<rparr>]\<rparr>]\<rparr>) \<and>
   milesByDay (\<lambda>s. Num (3600000 * isoToHoursSinceMidnight (\<lambda>_. None) s))
     \<lparr>distance_m = Num 804670, logs =
        [\<lparr>date = ''2024-03-04'', segments =
           [\<lparr>status = D, start_iso = ''2024-03-04T08:00:00Z'', end_iso = ''2024-03-04T12:00:00Z''\<rparr>,
            \<lparr>status = ON, start_iso = ''2024-03-04T12:00:00Z'', end_iso = ''2024-03-04T13:00:00Z''\<rparr>]\<rparr>,
         \<lparr>date = ''2024-03-05'', segments =
           [\<lparr>status = D, start_iso = ''2024-03-05T07:00:00Z'', end_iso = ''2024-03-05T13:00:00Z''\<rparr>]\<rparr>]\<rparr> ! 1
     = Num 300 \<and>
   jsum (milesByDay (\<lambda>s. Num (3600000 * isoToHoursSinceMidnight (\<lambda>_. None) s))
     \<lparr>distance_m = Num 804670, logs =
        [\<lparr>date = ''2024-03-04'', segments =
           [\<lparr>status = D, start_iso = ''2024-03-04T08:00:00Z'', end_iso = ''2024-03-04T12:00:00Z''\<rparr>,
            \<lparr>status = ON, start_iso = ''2024-03-04T12:00:00Z'', end_iso = ''2024-03-04T13:00:00Z''\<rparr>]\<rparr>,
         \<lparr>date = ''2024-03-05'', segments =
           [\<lparr>status = D, start_iso = ''2024-03-05T07:00:00Z'', end_iso = ''2024-03-05T13:00:00Z''\<rparr>]\<rparr>]\<rparr>)
     = Num 500"
  (is "?A \<and> ?B \<and> ?C \<and> ?D")
proof -
  let ?g = "\<lambda>s. Num (3600000 * isoToHoursSinceMidnight (\<lambda>_. None) s)"
  let ?p = "\<lparr>distance_m = Num 804670, logs =
        [\<lparr>date = ''2024-03-04'', segments =
           [\<lparr>status = D, start_iso = ''2024-03-04T08:00:00Z'', end_iso = ''2024-03-04T12:00:00Z''\<rparr>,
            \<lparr>status = ON, start_iso = ''2024-03-04T12:00:00Z'', end_iso = ''2024-03-04T13:00:00Z''\<rparr>]\<rparr>,
         \<lparr>date = ''2024-03-05'', segments =
           [\<lparr>status = D, start_iso = ''2024-03-05T07:00:00Z'', end_iso = ''2024-03-05T13:00:00Z''\<rparr>]\<rparr>]\<rparr>"
  have a: ?A by code_simp
  have b: ?B by simp
  have v1: "jdiv (jmul (totalMiles ?p) (drivingHoursPerDay ?g ?p ! 1)) (jsum (drivingHoursPerDay ?g ?p)) = Num 300"
    by code_simp
  have v2: "totalMiles ?p = Num 500" by code_simp
  have v3: "distance_m ?p \<noteq> NaN" by simp
  from miles_in_proportion [OF a b] v1 v2 v3 have "?C \<and> ?D" by simp
  with a b show ?thesis by blast
qed

text \<open>
  Claim C6. When the sum of the driving hours of the whole trip is zero, every day
  gets \<open>totalMiles\<close> unchanged: nothing is divided, and a value is returned.
\<close>

theorem zero_driving_full_miles:
  assumes "jsum (drivingHoursPerDay getTime plan) = Num 0"
  shows "(\<forall>i < length (logs plan). milesByDay getTime plan ! i = totalMiles plan) \<and>
         milesByDay getTime plan = replicate (length (logs plan)) (totalMiles plan)"
proof -
  have one: "perDayMiles getTime plan l = totalMiles plan" for l
    using assms by (simp add: perDayMiles_def totalDriveHours_jsum)
  have "map (perDayMiles getTime plan) ls = replicate (length ls) (totalMiles plan)" for ls
    by (induction ls) (simp_all add: one)
  with one show ?thesis
    by (simp add: milesByDay_def)
qed

theorem zero_driving_full_miles_witness:
  "jsum (drivingHoursPerDay (\<lambda>s. Num (3600000 * isoToHoursSinceMidnight (\<lambda>_. None) s))
     \<lparr>distance_m = Num 804670, logs =
        [\<lparr>date = ''2024-03-04'', segments =
           [\<lparr>status = ON, start_iso = ''2024-03-04T08:00:00Z'', end_iso = ''2024-03-04T12:00:00Z''\<rparr>]\<rparr>,
         \<lparr>date = ''2024-03-05'', segments = []\<rparr>]\<rparr>) = Num 0 \<and>
   milesByDay (\<lambda>s. Num (3600000 * isoToHoursSinceMidnight (\<lambda>_. None) s))
     \<lparr>distance_m = Num 804670, logs =
        [\<lparr>date = ''2024-03-04'', segments =
           [\<lparr>status = ON, start_iso = ''2024-03-04T08:00:00Z'', end_iso = ''2024-03-04T12:00:00Z''\<rparr>]\<rparr>,
         \<lparr>date = ''2024-03-05'', segments = []\<rparr>]\<rparr> = [Num 500, Num 500]"
  (is "?A \<and> ?B")
proof -
  let ?g = "\<lambda>s. Num (3600000 * isoToHoursSinceMidnight (\<lambda>_. None) s)"
  let ?p = "\<lparr>distance_m = Num 804670, logs =
        [\<lparr>date = ''2024-03-04'', segments =
           [\<lparr>status = ON, start_iso = ''2024-03-04T08:00:00Z'', end_iso = ''2024-03-04T12:00:00Z''\<rparr>]\<rparr>,
         \<lparr>date = ''2024-03-05'', segments = []\<rparr>]\<rparr>"
  have a: ?A by code_simp
  have v: "replicate (length (logs ?p)) (totalMiles ?p) = [Num 500, Num 500]" by code_simp
  from zero_driving_full_miles [OF a] v have ?B by simp
  with a show ?thesis by blast
qed

end
